theory Spec2Isabelle
  imports Main
begin

section \<open>Connection router: \<^verbatim>\<open>satellite/proxy/server.py\<close>\<close>

subsection \<open>Data\<close>

text \<open>
  \<^verbatim>\<open>ctx.proxy_mode\<close> holds a \<^verbatim>\<open>ProxyMode\<close>; a route row carries a \<^verbatim>\<open>RouteType\<close> and a
  nullable \<^verbatim>\<open>destination_override_endpoint\<close> column.
\<close>

datatype ProxyMode = FORWARD | REVERSE

datatype RouteType = INBOUND | OUTBOUND

record route =
  route_id :: string
  route_type :: RouteType
  destination_override_endpoint :: "string option"

text \<open>
  An options object is an attribute dictionary; the values are Python values. The
  attribute the router writes is \<^verbatim>\<open>mode\<close>.
\<close>

datatype pyval = PyNone | PyBool bool | PyInt int | PyStr string

type_synonym options = "string \<rightharpoonup> pyval"

type_synonym addr = nat

text \<open>
  Objects live in a store, so that sharing is visible: \<open>options_at\<close> gives the attributes
  of the options object at an address, \<open>config_options\<close> the \<^verbatim>\<open>options\<close> reference held by
  the \<^verbatim>\<open>ProxyConfig\<close> object at an address, and \<open>next_addr\<close> is the first address not yet
  allocated. The rest of the world the router touches: \<^verbatim>\<open>ctx.proxy_mode\<close>, the persisted
  route rows in creation order, a count of the reads made on the route repository, and
  the log of the connection handlers that were constructed and run.
\<close>

type_synonym handler_call = "nat \<times> string \<times> addr \<times> nat"
  \<comment> \<open>\<^verbatim>\<open>ConnectionHandler(conn, client_address, config, channel)\<close>\<close>

record world =
  options_at :: "addr \<Rightarrow> options"
  config_options :: "addr \<Rightarrow> addr"
  next_addr :: addr
  proxy_mode :: ProxyMode
  routes_table :: "route list"
  repository_reads :: nat
  handled :: "handler_call list"

record ProxyServer =
  config :: addr
  channel :: nat

subsection \<open>Collaborators\<close>

text \<open>
  Modelled from the spec: \<^verbatim>\<open>RouteManager.get_all_by_type\<close> (satellite/service/route_manager.py)
  is not among the sources. Section 4.3: a read-only query returning the routes of the
  given direction in creation order, the empty sequence when there is none. Each call is
  counted.
\<close>

definition get_all_by_type :: "RouteType \<Rightarrow> world \<Rightarrow> route list \<times> world" where
  "get_all_by_type ty w =
     (filter (\<lambda>r. route_type r = ty) (routes_table w),
      w\<lparr>repository_reads := Suc (repository_reads w)\<rparr>)"

text \<open>
  \<^verbatim>\<open>copy(options)\<close> allocates a new object with the attributes of the old one;
  \<^verbatim>\<open>options.mode = s\<close> rebinds one attribute of one object.
\<close>

definition copy_options :: "addr \<Rightarrow> world \<Rightarrow> addr \<times> world" where
  "copy_options a w =
     (next_addr w,
      w\<lparr>options_at := (options_at w)(next_addr w := options_at w a),
        next_addr := Suc (next_addr w)\<rparr>)"

definition set_mode :: "addr \<Rightarrow> string \<Rightarrow> world \<Rightarrow> world" where
  "set_mode a s w =
     w\<lparr>options_at := (options_at w)(a := (options_at w a)(''mode'' \<mapsto> PyStr s))\<rparr>"

text \<open>
  \<^verbatim>\<open>ProxyConfig(options)\<close> is a class of the interception engine. Its constructor keeps the
  options object it is given and reads \<^verbatim>\<open>options.mode\<close>: when the mode is \<^verbatim>\<open>upstream:\<close> or
  \<^verbatim>\<open>reverse:\<close> followed by a server specification, it parses the specification and raises
  \<^verbatim>\<open>ValueError\<close> when the parser rejects it. The parser is the engine's, not the
  repository's: it is the parameter \<open>valid\<close> of everything that constructs a
  configuration.
\<close>

datatype py_error = ValueError

fun strip_prefix :: "string \<Rightarrow> string \<Rightarrow> string option" where
  "strip_prefix [] s = Some s"
| "strip_prefix (c # cs) [] = None"
| "strip_prefix (c # cs) (d # ds) = (if c = d then strip_prefix cs ds else None)"

definition mode_server_spec :: "string \<Rightarrow> string option" where
  "mode_server_spec m =
     (case strip_prefix ''upstream:'' m of
        Some s \<Rightarrow> Some s
      | None \<Rightarrow> strip_prefix ''reverse:'' m)"

definition new_ProxyConfig ::
  "(string \<Rightarrow> bool) \<Rightarrow> addr \<Rightarrow> world \<Rightarrow> py_error + addr \<times> world" where
  "new_ProxyConfig valid opts w =
     (let fresh = (next_addr w,
                  w\<lparr>config_options := (config_options w)(next_addr w := opts),
                    next_addr := Suc (next_addr w)\<rparr>)
      in case options_at w opts ''mode'' of
           Some (PyStr m) \<Rightarrow>
             (case mode_server_spec m of
                Some spec \<Rightarrow> if valid spec then Inr fresh else Inl ValueError
              | None \<Rightarrow> Inr fresh)
         | _ \<Rightarrow> Inr fresh)"

subsection \<open>The router\<close>

text \<open>
  \<^verbatim>\<open>routes and routes[0].destination_override_endpoint\<close> evaluates to the empty list itself
  when there is no route, and to the column of the first route (\<^verbatim>\<open>None\<close> or a string)
  otherwise.
\<close>

datatype upstream = EmptyRoutes | Endpoint "string option"

fun truthy :: "upstream \<Rightarrow> bool" where
  "truthy EmptyRoutes = False"
| "truthy (Endpoint None) = False"
| "truthy (Endpoint (Some s)) = (s \<noteq> [])"

fun py_str :: "upstream \<Rightarrow> string" where
  "py_str EmptyRoutes = ''[]''"
| "py_str (Endpoint None) = ''None''"
| "py_str (Endpoint (Some s)) = s"

definition get_upstream :: "world \<Rightarrow> upstream \<times> world" where
  "get_upstream w =
     (case get_all_by_type INBOUND w of
        (routes, w') \<Rightarrow>
          (case routes of
             [] \<Rightarrow> (EmptyRoutes, w')
           | r # _ \<Rightarrow> (Endpoint (destination_override_endpoint r), w')))"

definition resolve_config ::
  "(string \<Rightarrow> bool) \<Rightarrow> ProxyServer \<Rightarrow> world \<Rightarrow> (py_error + addr) \<times> world" where
  \<comment> \<open>lines 23 to 30 of \<^verbatim>\<open>handle_client_connection\<close>: the value of \<^verbatim>\<open>config\<close> at line 32,
      or the exception raised at line 30\<close>
  "resolve_config valid srv w =
     (if proxy_mode w = REVERSE then
        (case get_upstream w of
           (up, w1) \<Rightarrow>
             if truthy up then
               (case copy_options (config_options w1 (config srv)) w1 of
                  (opts, w2) \<Rightarrow>
                    (let w3 = set_mode opts (''reverse:'' @ py_str up) w2
                     in case new_ProxyConfig valid opts w3 of
                          Inl e \<Rightarrow> (Inl e, w3)
                        | Inr (cfg, w4) \<Rightarrow> (Inr cfg, w4)))
             else (Inr (config srv), w1))
      else (Inr (config srv), w))"

text \<open>
  A call either returns, after the handler was constructed and run, or raises what
  \<^verbatim>\<open>ProxyConfig\<close> raised; then no handler was constructed.
\<close>

datatype outcome = Returned | Raised py_error

definition handle_client_connection ::
  "(string \<Rightarrow> bool) \<Rightarrow> ProxyServer \<Rightarrow> nat \<Rightarrow> string \<Rightarrow> world \<Rightarrow> outcome \<times> world" where
  "handle_client_connection valid srv conn client_address w =
     (case resolve_config valid srv w of
        (Inl e, w') \<Rightarrow> (Raised e, w')
      | (Inr cfg, w') \<Rightarrow>
          (Returned,
           w'\<lparr>handled := handled w' @ [(conn, client_address, cfg, channel srv)]\<rparr>))"

text \<open>Reading the log: the configuration the last handler was given, and its attributes.\<close>

definition handed_config :: "world \<Rightarrow> addr" where
  "handed_config w = fst (snd (snd (last (handled w))))"

definition config_attrs :: "world \<Rightarrow> addr \<Rightarrow> options" where
  "config_attrs w c = options_at w (config_options w c)"

definition inbound :: "world \<Rightarrow> route list" where
  "inbound w = filter (\<lambda>r. route_type r = INBOUND) (routes_table w)"

text \<open>
  Addresses in use are below \<open>next_addr\<close>: the default configuration and its options
  were allocated before the server accepts connections.
\<close>

definition allocated :: "ProxyServer \<Rightarrow> world \<Rightarrow> bool" where
  "allocated srv w \<longleftrightarrow>
     config srv < next_addr w \<and> config_options w (config srv) < next_addr w"

definition same_objects :: "world \<Rightarrow> world \<Rightarrow> bool" where
  "same_objects w w' \<longleftrightarrow>
     options_at w' = options_at w \<and> config_options w' = config_options w \<and>
     next_addr w' = next_addr w"

text \<open>
  A run of the server: connections are accepted one after the other, and between two of
  them the operator may change the proxy mode or the persisted routes. Neither change
  touches the object store. A call that raises ends that connection only; the server
  goes on with the next.
\<close>

datatype event = Accept nat string | ModeChanged ProxyMode | RoutesChanged "route list"

fun step :: "(string \<Rightarrow> bool) \<Rightarrow> ProxyServer \<Rightarrow> event \<Rightarrow> world \<Rightarrow> world" where
  "step valid srv (Accept conn client_address) w =
     snd (handle_client_connection valid srv conn client_address w)"
| "step valid srv (ModeChanged m) w = w\<lparr>proxy_mode := m\<rparr>"
| "step valid srv (RoutesChanged tbl) w = w\<lparr>routes_table := tbl\<rparr>"

definition run :: "(string \<Rightarrow> bool) \<Rightarrow> ProxyServer \<Rightarrow> event list \<Rightarrow> world \<Rightarrow> world" where
  "run valid srv evs w = fold (step valid srv) evs w"

definition new_calls :: "world \<Rightarrow> world \<Rightarrow> handler_call list" where
  "new_calls w w' = drop (length (handled w)) (handled w')"

definition call_config :: "handler_call \<Rightarrow> addr" where
  "call_config c = fst (snd (snd c))"

text \<open>
  What holds between the world \<open>w\<close> a run starts in and any world \<open>v\<close> it reaches: the
  allocation pointer only grows, the objects that existed in \<open>w\<close> are as they were, and
  every handler constructed since was given a configuration that lies in the allocated
  part, agrees with the default on every attribute but \<^verbatim>\<open>mode\<close>, and is either the
  default object or made of objects allocated during the run.
\<close>

definition run_inv :: "ProxyServer \<Rightarrow> world \<Rightarrow> world \<Rightarrow> bool" where
  "run_inv srv w v \<longleftrightarrow>
     next_addr w \<le> next_addr v \<and>
     (\<forall>x<next_addr w. options_at v x = options_at w x \<and> config_options v x = config_options w x) \<and>
     (\<exists>cs. handled v = handled w @ cs \<and>
        (\<forall>c\<in>set cs.
           call_config c < next_addr v \<and> config_options v (call_config c) < next_addr v \<and>
           (\<forall>k. k \<noteq> ''mode'' \<longrightarrow> config_attrs v (call_config c) k = config_attrs w (config srv) k) \<and>
           (call_config c = config srv \<or>
            next_addr w \<le> call_config c \<and> next_addr w \<le> config_options v (call_config c))))"


subsection \<open>A parser of server specifications\<close>

text \<open>
  For the concrete runs below, a parser in the place of the engine's: a specification is
  \<^verbatim>\<open>[scheme://]host[:port][/]\<close> with the scheme \<^verbatim>\<open>http\<close> or \<^verbatim>\<open>https\<close>, a host of at most 255
  characters made of labels of 1 to 63 letters, digits, hyphens and underscores
  separated by dots, and a port of decimal digits up to 65535. Bracketed IPv6 literals
  and names outside ASCII, which the engine's parser reads too, are left out and are
  rejected here. Every general statement below is about any parser.
\<close>

definition is_digit :: "char \<Rightarrow> bool" where
  "is_digit c \<longleftrightarrow> c \<in> set ''0123456789''"

definition is_word :: "char \<Rightarrow> bool" where
  "is_word c \<longleftrightarrow>
     c \<in> set ''abcdefghijklmnopqrstuvwxyzABCDEFGHIJKLMNOPQRSTUVWXYZ0123456789_''"

definition is_label_char :: "char \<Rightarrow> bool" where
  "is_label_char c \<longleftrightarrow> is_word c \<or> c = CHR ''-''"

fun split_on :: "char \<Rightarrow> string \<Rightarrow> string list" where
  "split_on d [] = [[]]"
| "split_on d (c # cs) =
     (if c = d then [] # split_on d cs
      else (case split_on d cs of [] \<Rightarrow> [[c]] | x # xs \<Rightarrow> (c # x) # xs))"

definition valid_label :: "string \<Rightarrow> bool" where
  "valid_label l \<longleftrightarrow> l \<noteq> [] \<and> length l \<le> 63 \<and> list_all is_label_char l"

definition valid_host :: "string \<Rightarrow> bool" where
  "valid_host h \<longleftrightarrow>
     length h \<le> 255 \<and>
     list_all valid_label
       (split_on CHR ''.'' (if h \<noteq> [] \<and> last h = CHR ''.'' then butlast h else h))"

definition digit_value :: "char \<Rightarrow> nat" where
  "digit_value c = length (takeWhile (\<lambda>d. d \<noteq> c) ''0123456789'')"

definition port_value :: "string \<Rightarrow> nat" where
  "port_value ds = foldl (\<lambda>n c. 10 * n + digit_value c) 0 ds"

definition valid_port :: "string \<Rightarrow> bool" where
  "valid_port ds \<longleftrightarrow> ds \<noteq> [] \<and> list_all is_digit ds \<and> port_value ds \<le> 65535"

definition split_scheme :: "string \<Rightarrow> string option \<times> string" where
  "split_scheme s =
     (case strip_prefix ''://'' (dropWhile is_word s) of
        Some rest \<Rightarrow> if takeWhile is_word s \<noteq> [] then (Some (takeWhile is_word s), rest)
                     else (None, s)
      | None \<Rightarrow> (None, s))"

definition valid_port_part :: "string \<Rightarrow> bool" where
  \<comment> \<open>what follows the host: nothing, or a colon and a port; one closing slash is allowed\<close>
  "valid_port_part t =
     (case (if t \<noteq> [] \<and> last t = CHR ''/'' then butlast t else t) of
        [] \<Rightarrow> True
      | c # ds \<Rightarrow> c = CHR '':'' \<and> valid_port ds)"

definition server_spec_ok :: "string \<Rightarrow> bool" where
  "server_spec_ok s =
     (case split_scheme s of
        (scheme, rest) \<Rightarrow>
          (scheme = None \<or> scheme = Some ''http'' \<or> scheme = Some ''https'') \<and>
          takeWhile (\<lambda>c. c \<noteq> CHR '':'' \<and> c \<noteq> CHR ''/'') rest \<noteq> [] \<and>
          valid_host (takeWhile (\<lambda>c. c \<noteq> CHR '':'' \<and> c \<noteq> CHR ''/'') rest) \<and>
          valid_port_part (dropWhile (\<lambda>c. c \<noteq> CHR '':'' \<and> c \<noteq> CHR ''/'') rest))"

subsection \<open>A concrete server\<close>

definition default_options :: options where
  "default_options =
     [''mode'' \<mapsto> PyStr ''reverse:http://localhost:8080'',
      ''listen_port'' \<mapsto> PyInt 9098,
      ''ssl_insecure'' \<mapsto> PyBool True,
      ''listen_host'' \<mapsto> PyNone]"

definition server0 :: ProxyServer where
  "server0 = \<lparr>config = 1, channel = 7\<rparr>"

definition route_a :: route where
  "route_a = \<lparr>route_id = ''a'', route_type = INBOUND,
              destination_override_endpoint = Some ''https://httpbin.org''\<rparr>"

definition route_b :: route where
  "route_b = \<lparr>route_id = ''b'', route_type = INBOUND,
              destination_override_endpoint = Some ''https://example.com''\<rparr>"

definition route_null :: route where
  "route_null = \<lparr>route_id = ''n'', route_type = INBOUND,
                 destination_override_endpoint = None\<rparr>"

definition route_blank :: route where
  "route_blank = \<lparr>route_id = ''e'', route_type = INBOUND,
                  destination_override_endpoint = Some []\<rparr>"

definition route_out :: route where
  "route_out = \<lparr>route_id = ''o'', route_type = OUTBOUND,
                destination_override_endpoint = Some ''https://outbound.example''\<rparr>"

definition route_bad :: route where
  "route_bad = \<lparr>route_id = ''x'', route_type = INBOUND,
                destination_override_endpoint = Some ''not an endpoint''\<rparr>"

definition route_port :: route where
  "route_port = \<lparr>route_id = ''p'', route_type = INBOUND,
                 destination_override_endpoint = Some ''localhost:99999''\<rparr>"

definition world0 :: "ProxyMode \<Rightarrow> route list \<Rightarrow> world" where
  "world0 m tbl =
     \<lparr>options_at = (\<lambda>_. Map.empty)(0 := default_options),
      config_options = (\<lambda>_. 0)(1 := 0),
      next_addr = 2,
      proxy_mode = m,
      routes_table = tbl,
      repository_reads = 0,
      handled = []\<rparr>"

definition events0 :: "event list" where
  "events0 =
     [Accept 1 ''10.0.0.1'', RoutesChanged [route_b], Accept 2 ''10.0.0.2'',
      RoutesChanged [route_port], Accept 4 ''10.0.0.4'',
      ModeChanged FORWARD, Accept 3 ''10.0.0.3'']"

section \<open>Alias store: \<^verbatim>\<open>satellite/tests/aliases/test_store.py\<close>\<close>

subsection \<open>Rows\<close>

text \<open>
  An \<^verbatim>\<open>Alias\<close> row as the spec (section 3) and the test helper \<^verbatim>\<open>make_alias\<close> give it.
  Time is counted in seconds, as the TTL is.
\<close>

datatype AliasGeneratorType = UUID | OtherGenerator string

record Alias =
  alias_id :: string
  alias_value :: string
  alias_generator :: AliasGeneratorType
  public_alias :: string
  created_at :: int
  expires_at :: "int option"

datatype store_error = DuplicateKeyError

datatype AliasStore = AliasStore (ttl: "int option")
  \<comment> \<open>\<^verbatim>\<open>AliasStore()\<close> is \<open>AliasStore None\<close>, \<^verbatim>\<open>AliasStore(60)\<close> is \<open>AliasStore (Some 60)\<close>\<close>

subsection \<open>The store\<close>

text \<open>
  Modelled from the spec: the class \<^verbatim>\<open>AliasStore\<close> (satellite/aliases/store.py), the
  \<^verbatim>\<open>Alias\<close> table and the database session are not among the sources; only the tests
  of the store are. The operations follow section 4.1 of the spec where the tests agree
  with it or say nothing, and the tests where they decide otherwise. That happens twice.
  \<^item> \<^verbatim>\<open>make_alias\<close> adds and commits the row it builds, whatever its argument, and every
    test that saves then calls \<^verbatim>\<open>save\<close> on that stored row and goes on: committing a row
    whose id is stored already rewrites that row. The uniqueness of \<^verbatim>\<open>value\<close> and
    \<^verbatim>\<open>public_alias\<close> (spec: \<^verbatim>\<open>DuplicateKeyError\<close>) is between rows of different ids.
  \<^item> \<^verbatim>\<open>test_get_by_value_with_ttl\<close> and \<^verbatim>\<open>test_get_by_alias_with_ttl\<close> assert that
    \<^verbatim>\<open>AliasStore()\<close> returns \<^verbatim>\<open>None\<close> for a row just saved with a TTL of 60: a handle
    without a TTL reads the rows without an expiry only. A handle with a TTL reads the
    rows that have not expired (spec: valid while now is before \<^verbatim>\<open>expiresAt\<close>, and for ever
    when \<^verbatim>\<open>expiresAt\<close> is null).
\<close>

definition commit_alias :: "Alias \<Rightarrow> Alias list \<Rightarrow> store_error + Alias list" where
  \<comment> \<open>\<^verbatim>\<open>session.add(alias); session.commit()\<close>\<close>
  "commit_alias a tab =
     (if \<exists>r\<in>set tab. alias_id r \<noteq> alias_id a \<and>
           (alias_value r = alias_value a \<or> public_alias r = public_alias a)
      then Inl DuplicateKeyError
      else if \<exists>r\<in>set tab. alias_id r = alias_id a
      then Inr (map (\<lambda>r. if alias_id r = alias_id a then a else r) tab)
      else Inr (tab @ [a]))"

definition save ::
  "AliasStore \<Rightarrow> int \<Rightarrow> Alias \<Rightarrow> Alias list \<Rightarrow> (store_error + Alias) \<times> Alias list" where
  "save store now a tab =
     (let a' = a\<lparr>expires_at := (case ttl store of None \<Rightarrow> None | Some t \<Rightarrow> Some (now + t))\<rparr>
      in case commit_alias a' tab of
           Inl e \<Rightarrow> (Inl e, tab)
         | Inr tab' \<Rightarrow> (Inr a', tab'))"

definition live :: "AliasStore \<Rightarrow> int \<Rightarrow> Alias \<Rightarrow> bool" where
  "live store now r =
     (case ttl store of
        None \<Rightarrow> expires_at r = None
      | Some _ \<Rightarrow> (case expires_at r of None \<Rightarrow> True | Some e \<Rightarrow> now < e))"

definition get_by_value :: "AliasStore \<Rightarrow> int \<Rightarrow> string \<Rightarrow> Alias list \<Rightarrow> Alias option" where
  "get_by_value store now v tab = find (\<lambda>r. alias_value r = v \<and> live store now r) tab"

definition get_by_alias :: "AliasStore \<Rightarrow> int \<Rightarrow> string \<Rightarrow> Alias list \<Rightarrow> Alias option" where
  "get_by_alias store now p tab = find (\<lambda>r. public_alias r = p \<and> live store now r) tab"

definition expired :: "int \<Rightarrow> Alias \<Rightarrow> bool" where
  "expired now r = (case expires_at r of None \<Rightarrow> False | Some e \<Rightarrow> e \<le> now)"

definition cleanup :: "int \<Rightarrow> Alias list \<Rightarrow> nat \<times> Alias list" where
  "cleanup now tab = (length (filter (expired now) tab), filter (\<lambda>r. \<not> expired now r) tab)"


subsection \<open>The spec's wording, for comparison\<close>

text \<open>
  Section 4.1 as it is worded: a read returns the matching row that has not expired,
  whichever handle reads, and a save fails when the value or the public alias is that of
  any stored row.
\<close>

definition live_spec :: "int \<Rightarrow> Alias \<Rightarrow> bool" where
  "live_spec now r = (case expires_at r of None \<Rightarrow> True | Some e \<Rightarrow> now < e)"

definition get_by_value_spec :: "AliasStore \<Rightarrow> int \<Rightarrow> string \<Rightarrow> Alias list \<Rightarrow> Alias option" where
  "get_by_value_spec store now v tab = find (\<lambda>r. alias_value r = v \<and> live_spec now r) tab"

definition save_spec ::
  "AliasStore \<Rightarrow> int \<Rightarrow> Alias \<Rightarrow> Alias list \<Rightarrow> (store_error + Alias) \<times> Alias list" where
  "save_spec store now a tab =
     (let a' = a\<lparr>expires_at := (case ttl store of None \<Rightarrow> None | Some t \<Rightarrow> Some (now + t))\<rparr>
      in if \<exists>r\<in>set tab. alias_value r = alias_value a \<or> public_alias r = public_alias a
         then (Inl DuplicateKeyError, tab)
         else (Inr a', tab @ [a']))"

subsection \<open>The tests\<close>

text \<open>
  Each test is a predicate: true when no call raises and every assertion holds. What a
  test draws from its environment is an argument: the id and the UUID of the alias it
  makes, the clock when it writes (\<open>now\<close>) and when it reads (\<open>later\<close>), and the table it
  starts from.
\<close>

text \<open>
  \<^verbatim>\<open>Alias(value=value, alias_generator=AliasGeneratorType.UUID, public_alias=f'public_{value}')\<close>:
  a new row, without an expiry.
\<close>

definition made :: "string \<Rightarrow> string \<Rightarrow> int \<Rightarrow> Alias" where
  "made i v now =
     \<lparr>alias_id = i, alias_value = v, alias_generator = UUID,
      public_alias = ''public_'' @ v, created_at = now, expires_at = None\<rparr>"

text \<open>
  \<^verbatim>\<open>make_alias\<close> takes \<^verbatim>\<open>store\<close> and never reads it: the row is added and committed in
  every case.
\<close>

definition make_alias ::
  "bool \<Rightarrow> string \<Rightarrow> string \<Rightarrow> int \<Rightarrow> Alias list \<Rightarrow> store_error + Alias \<times> Alias list" where
  "make_alias store i v now tab =
     (let a = made i v now
      in case commit_alias a tab of
           Inl e \<Rightarrow> Inl e
         | Inr tab' \<Rightarrow> Inr (a, tab'))"

definition test_get_by_value :: "string \<Rightarrow> string \<Rightarrow> int \<Rightarrow> int \<Rightarrow> Alias list \<Rightarrow> bool" where
  "test_get_by_value i v now later tab =
     (case make_alias True i v now tab of
        Inl e \<Rightarrow> False
      | Inr (a, tab1) \<Rightarrow>
          get_by_value (AliasStore None) later (public_alias a) tab1 = None \<and>
          get_by_value (AliasStore None) later (alias_value a) tab1 = Some a)"

definition test_get_by_alias :: "string \<Rightarrow> string \<Rightarrow> int \<Rightarrow> int \<Rightarrow> Alias list \<Rightarrow> bool" where
  "test_get_by_alias i v now later tab =
     (case make_alias True i v now tab of
        Inl e \<Rightarrow> False
      | Inr (a, tab1) \<Rightarrow>
          get_by_alias (AliasStore None) later (alias_value a) tab1 = None \<and>
          get_by_alias (AliasStore None) later (public_alias a) tab1 = Some a)"

definition test_save :: "string \<Rightarrow> string \<Rightarrow> int \<Rightarrow> int \<Rightarrow> Alias list \<Rightarrow> bool" where
  "test_save i v now later tab =
     (case make_alias False i v now tab of
        Inl e \<Rightarrow> False
      | Inr (a, tab1) \<Rightarrow>
          (case save (AliasStore None) now a tab1 of
             (Inl e, tab2) \<Rightarrow> False
           | (Inr a', tab2) \<Rightarrow> find (\<lambda>r. alias_id r = alias_id a') tab2 = Some a'))"

definition test_get_by_value_with_ttl ::
  "string \<Rightarrow> string \<Rightarrow> int \<Rightarrow> int \<Rightarrow> Alias list \<Rightarrow> bool" where
  "test_get_by_value_with_ttl i v now later tab =
     (case make_alias False i v now tab of
        Inl e \<Rightarrow> False
      | Inr (a, tab1) \<Rightarrow>
          (case save (AliasStore (Some 60)) now a tab1 of
             (Inl e, tab2) \<Rightarrow> False
           | (Inr a', tab2) \<Rightarrow>
               get_by_value (AliasStore (Some 60)) later (alias_value a') tab2 = Some a' \<and>
               get_by_value (AliasStore None) later (alias_value a') tab2 = None))"

definition test_get_by_value_with_ttl_expired ::
  "string \<Rightarrow> string \<Rightarrow> int \<Rightarrow> int \<Rightarrow> Alias list \<Rightarrow> bool" where
  "test_get_by_value_with_ttl_expired i v now later tab =
     (case make_alias False i v now tab of
        Inl e \<Rightarrow> False
      | Inr (a, tab1) \<Rightarrow>
          (case save (AliasStore (Some (- 1))) now a tab1 of
             (Inl e, tab2) \<Rightarrow> False
           | (Inr a', tab2) \<Rightarrow>
               get_by_value (AliasStore (Some (- 1))) later (alias_value a') tab2 = None))"

definition test_get_by_alias_with_ttl ::
  "string \<Rightarrow> string \<Rightarrow> int \<Rightarrow> int \<Rightarrow> Alias list \<Rightarrow> bool" where
  "test_get_by_alias_with_ttl i v now later tab =
     (case make_alias False i v now tab of
        Inl e \<Rightarrow> False
      | Inr (a, tab1) \<Rightarrow>
          (case save (AliasStore (Some 60)) now a tab1 of
             (Inl e, tab2) \<Rightarrow> False
           | (Inr a', tab2) \<Rightarrow>
               get_by_alias (AliasStore (Some 60)) later (public_alias a') tab2 = Some a' \<and>
               get_by_alias (AliasStore None) later (public_alias a') tab2 = None))"

definition test_get_by_alias_with_ttl_expired ::
  "string \<Rightarrow> string \<Rightarrow> int \<Rightarrow> int \<Rightarrow> Alias list \<Rightarrow> bool" where
  "test_get_by_alias_with_ttl_expired i v now later tab =
     (case make_alias False i v now tab of
        Inl e \<Rightarrow> False
      | Inr (a, tab1) \<Rightarrow>
          (case save (AliasStore (Some (- 1))) now a tab1 of
             (Inl e, tab2) \<Rightarrow> False
           | (Inr a', tab2) \<Rightarrow>
               get_by_alias (AliasStore (Some (- 1))) later (public_alias a') tab2 = None))"

definition made_and_saved ::
  "int option \<Rightarrow> string \<Rightarrow> string \<Rightarrow> int \<Rightarrow> Alias list \<Rightarrow> store_error + Alias list" where
  \<comment> \<open>\<^verbatim>\<open>alias = make_alias(False); AliasStore(ttl).save(alias)\<close>, as \<^verbatim>\<open>test_cleanup\<close> does thrice\<close>
  "made_and_saved t i v now tab =
     (case make_alias False i v now tab of
        Inl e \<Rightarrow> Inl e
      | Inr (a, tab1) \<Rightarrow>
          (case save (AliasStore t) now a tab1 of
             (Inl e, tab2) \<Rightarrow> Inl e
           | (Inr a', tab2) \<Rightarrow> Inr tab2))"

definition test_cleanup ::
  "string \<Rightarrow> string \<Rightarrow> string \<Rightarrow> string \<Rightarrow> string \<Rightarrow> string \<Rightarrow> int \<Rightarrow> int \<Rightarrow> bool" where
  \<comment> \<open>the table is emptied first; lines 94 to 96 assert nothing\<close>
  "test_cleanup i1 v1 i2 v2 i3 v3 now later =
     (case made_and_saved None i1 v1 now [] of
        Inl e \<Rightarrow> False
      | Inr tab1 \<Rightarrow>
          (case made_and_saved (Some 60) i2 v2 now tab1 of
             Inl e \<Rightarrow> False
           | Inr tab2 \<Rightarrow>
               (case made_and_saved (Some (- 1)) i3 v3 now tab2 of
                  Inl e \<Rightarrow> False
                | Inr tab3 \<Rightarrow> fst (cleanup later tab3) = 1)))"

text \<open>
  What the UUIDs of the tests give: the id and the value of the new alias, and the value
  with \<^verbatim>\<open>public_\<close> before it, occur in no stored row.
\<close>

definition fresh_for :: "string \<Rightarrow> string \<Rightarrow> Alias list \<Rightarrow> bool" where
  "fresh_for i v tab \<longleftrightarrow>
     (\<forall>r\<in>set tab. alias_id r \<noteq> i \<and>
        alias_value r \<noteq> v \<and> alias_value r \<noteq> ''public_'' @ v \<and>
        public_alias r \<noteq> v \<and> public_alias r \<noteq> ''public_'' @ v)"

subsection \<open>Concrete rows\<close>

definition alias_card :: Alias where
  "alias_card = \<lparr>alias_id = ''1'', alias_value = ''4111-1111-1111-1111'', alias_generator = UUID,
                 public_alias = ''tok_card'', created_at = 1000, expires_at = None\<rparr>"

definition alias_token :: Alias where
  "alias_token = \<lparr>alias_id = ''2'', alias_value = ''tok_card'', alias_generator = UUID,
                  public_alias = ''tok_outer'', created_at = 1000, expires_at = None\<rparr>"

definition alias_old :: Alias where
  "alias_old = \<lparr>alias_id = ''3'', alias_value = ''4242-4242-4242-4242'', alias_generator = UUID,
                public_alias = ''tok_old'', created_at = 900, expires_at = Some 950\<rparr>"

definition alias_fresh :: Alias where
  "alias_fresh = \<lparr>alias_id = ''4'', alias_value = ''5555-5555-5555-4444'', alias_generator = UUID,
                  public_alias = ''tok_fresh'', created_at = 990, expires_at = Some 1050\<rparr>"

definition alias_made :: Alias where
  "alias_made = \<lparr>alias_id = ''1'', alias_value = ''4111-1111-1111-1111'', alias_generator = UUID,
                 public_alias = ''public_4111-1111-1111-1111'', created_at = 1000,
                 expires_at = None\<rparr>"

definition alias_dup :: Alias where
  "alias_dup = \<lparr>alias_id = ''5'', alias_value = ''4242-4242-4242-4242'', alias_generator = UUID,
                public_alias = ''tok_new'', created_at = 1000, expires_at = None\<rparr>"

section \<open>Facts about the connection router\<close>

subsection \<open>Facts about one call\<close>

lemma mode_server_spec_reverse: "mode_server_spec (''reverse:'' @ ep) = Some ep"
  by (simp add: mode_server_spec_def)

lemma resolve_config_forward:
  "proxy_mode w \<noteq> REVERSE \<Longrightarrow> resolve_config valid srv w = (Inr (config srv), w)"
  by (simp add: resolve_config_def)

lemma get_upstream_inbound:
  "get_upstream w =
     ((case inbound w of [] \<Rightarrow> EmptyRoutes
       | r # _ \<Rightarrow> Endpoint (destination_override_endpoint r)),
      w\<lparr>repository_reads := Suc (repository_reads w)\<rparr>)"
  by (simp add: get_upstream_def get_all_by_type_def inbound_def split: list.split)

lemma resolve_config_no_override:
  assumes "proxy_mode w = REVERSE"
    and "\<not> truthy (fst (get_upstream w))"
  shows "resolve_config valid srv w =
           (Inr (config srv), w\<lparr>repository_reads := Suc (repository_reads w)\<rparr>)"
  using assms by (simp add: resolve_config_def get_upstream_inbound)

text \<open>The world after lines 28 and 29: the copy exists and its mode is rebound.\<close>

lemma resolve_config_truthy:
  assumes "proxy_mode w = REVERSE" and "truthy (fst (get_upstream w))"
  shows "resolve_config valid srv w =
    (if valid (py_str (fst (get_upstream w))) then
       (Inr (Suc (next_addr w)),
        w\<lparr>repository_reads := Suc (repository_reads w),
          options_at := (options_at w)
            (next_addr w :=
               (options_at w (config_options w (config srv)))
                 (''mode'' \<mapsto> PyStr (''reverse:'' @ py_str (fst (get_upstream w))))),
          config_options := (config_options w)(Suc (next_addr w) := next_addr w),
          next_addr := Suc (Suc (next_addr w))\<rparr>)
     else
       (Inl ValueError,
        w\<lparr>repository_reads := Suc (repository_reads w),
          options_at := (options_at w)
            (next_addr w :=
               (options_at w (config_options w (config srv)))
                 (''mode'' \<mapsto> PyStr (''reverse:'' @ py_str (fst (get_upstream w))))),
          next_addr := Suc (next_addr w)\<rparr>))"
proof -
  have m: "mode_server_spec (''reverse:'' @ py_str (fst (get_upstream w)))
      = Some (py_str (fst (get_upstream w)))"
    by (rule mode_server_spec_reverse)
  show ?thesis
    using assms m
    by (simp add: resolve_config_def get_upstream_inbound copy_options_def set_mode_def
        new_ProxyConfig_def Let_def)
qed

lemma first_endpoint:
  assumes "inbound w = r # rs" and "destination_override_endpoint r = Some ep"
  shows "fst (get_upstream w) = Endpoint (Some ep)"
  using assms by (simp add: get_upstream_inbound)

lemma resolve_config_override:
  assumes "proxy_mode w = REVERSE"
    and "inbound w = r # rs"
    and "destination_override_endpoint r = Some ep"
    and "ep \<noteq> []"
    and "valid ep"
  shows "resolve_config valid srv w =
           (Inr (Suc (next_addr w)),
            w\<lparr>repository_reads := Suc (repository_reads w),
              options_at := (options_at w)
                (next_addr w :=
                   (options_at w (config_options w (config srv)))
                     (''mode'' \<mapsto> PyStr (''reverse:'' @ ep))),
              config_options := (config_options w)(Suc (next_addr w) := next_addr w),
              next_addr := Suc (Suc (next_addr w))\<rparr>)"
proof -
  note u = first_endpoint [OF assms(2,3)]
  have "truthy (fst (get_upstream w))" using assms(4) by (simp add: u)
  from resolve_config_truthy [OF assms(1) this, of valid srv] assms(5)
  show ?thesis by (simp add: u)
qed

lemma resolve_config_rejected:
  assumes "proxy_mode w = REVERSE"
    and "inbound w = r # rs"
    and "destination_override_endpoint r = Some ep"
    and "ep \<noteq> []"
    and "\<not> valid ep"
  shows "resolve_config valid srv w =
           (Inl ValueError,
            w\<lparr>repository_reads := Suc (repository_reads w),
              options_at := (options_at w)
                (next_addr w :=
                   (options_at w (config_options w (config srv)))
                     (''mode'' \<mapsto> PyStr (''reverse:'' @ ep))),
              next_addr := Suc (next_addr w)\<rparr>)"
proof -
  note u = first_endpoint [OF assms(2,3)]
  have "truthy (fst (get_upstream w))" using assms(4) by (simp add: u)
  from resolve_config_truthy [OF assms(1) this, of valid srv] assms(5)
  show ?thesis by (simp add: u)
qed

lemma resolve_config_handled: "handled (snd (resolve_config valid srv w)) = handled w"
proof (cases "proxy_mode w = REVERSE")
  case False
  then show ?thesis by (simp add: resolve_config_forward)
next
  case True
  show ?thesis
  proof (cases "truthy (fst (get_upstream w))")
    case False
    then show ?thesis by (simp add: resolve_config_no_override [OF True])
  next
    case t: True
    show ?thesis by (simp add: resolve_config_truthy [OF True t])
  qed
qed

lemma handle_eq:
  "handle_client_connection valid srv conn a w =
     (case fst (resolve_config valid srv w) of
        Inl e \<Rightarrow> (Raised e, snd (resolve_config valid srv w))
      | Inr cfg \<Rightarrow>
          (Returned,
           (snd (resolve_config valid srv w))
             \<lparr>handled := handled w @ [(conn, a, cfg, channel srv)]\<rparr>))"
  using resolve_config_handled [of valid srv w]
  by (cases "resolve_config valid srv w")
    (simp add: handle_client_connection_def split: sum.split)

lemma handle_returned:
  assumes "resolve_config valid srv w = (Inr cfg, w')"
  shows "handle_client_connection valid srv conn a w =
           (Returned, w'\<lparr>handled := handled w @ [(conn, a, cfg, channel srv)]\<rparr>)"
  by (simp add: handle_eq assms)

lemma handle_raised:
  assumes "resolve_config valid srv w = (Inl e, w')"
  shows "handle_client_connection valid srv conn a w = (Raised e, w')"
  by (simp add: handle_eq assms)

lemma handed_config_returned:
  assumes "resolve_config valid srv w = (Inr cfg, w')"
  shows "handed_config (snd (handle_client_connection valid srv conn a w)) = cfg"
  by (simp add: handle_returned [OF assms] handed_config_def)

subsection \<open>Facts about a run\<close>

lemma resolve_config_cases:
  obtains (default) "fst (resolve_config valid srv w) = Inr (config srv)"
      "options_at (snd (resolve_config valid srv w)) = options_at w"
      "config_options (snd (resolve_config valid srv w)) = config_options w"
      "next_addr (snd (resolve_config valid srv w)) = next_addr w"
  | (override) s where "fst (resolve_config valid srv w) = Inr (Suc (next_addr w))"
      "options_at (snd (resolve_config valid srv w)) =
         (options_at w)(next_addr w :=
            (options_at w (config_options w (config srv)))(''mode'' \<mapsto> PyStr s))"
      "config_options (snd (resolve_config valid srv w)) =
         (config_options w)(Suc (next_addr w) := next_addr w)"
      "next_addr (snd (resolve_config valid srv w)) = Suc (Suc (next_addr w))"
  | (rejected) s where "fst (resolve_config valid srv w) = Inl ValueError"
      "options_at (snd (resolve_config valid srv w)) =
         (options_at w)(next_addr w :=
            (options_at w (config_options w (config srv)))(''mode'' \<mapsto> PyStr s))"
      "config_options (snd (resolve_config valid srv w)) = config_options w"
      "next_addr (snd (resolve_config valid srv w)) = Suc (next_addr w)"
proof (cases "proxy_mode w = REVERSE \<and> truthy (fst (get_upstream w))")
  case False
  then have "resolve_config valid srv w = (Inr (config srv), w) \<or>
      resolve_config valid srv w =
        (Inr (config srv), w\<lparr>repository_reads := Suc (repository_reads w)\<rparr>)"
    by (cases "proxy_mode w = REVERSE")
      (simp_all add: resolve_config_forward resolve_config_no_override)
  then have "fst (resolve_config valid srv w) = Inr (config srv)"
      "options_at (snd (resolve_config valid srv w)) = options_at w"
      "config_options (snd (resolve_config valid srv w)) = config_options w"
      "next_addr (snd (resolve_config valid srv w)) = next_addr w"
    by auto
  then show ?thesis by (rule default)
next
  case True
  then have rc: "resolve_config valid srv w =
    (if valid (py_str (fst (get_upstream w))) then
       (Inr (Suc (next_addr w)),
        w\<lparr>repository_reads := Suc (repository_reads w),
          options_at := (options_at w)
            (next_addr w :=
               (options_at w (config_options w (config srv)))
                 (''mode'' \<mapsto> PyStr (''reverse:'' @ py_str (fst (get_upstream w))))),
          config_options := (config_options w)(Suc (next_addr w) := next_addr w),
          next_addr := Suc (Suc (next_addr w))\<rparr>)
     else
       (Inl ValueError,
        w\<lparr>repository_reads := Suc (repository_reads w),
          options_at := (options_at w)
            (next_addr w :=
               (options_at w (config_options w (config srv)))
                 (''mode'' \<mapsto> PyStr (''reverse:'' @ py_str (fst (get_upstream w))))),
          next_addr := Suc (next_addr w)\<rparr>))"
    by (intro resolve_config_truthy) simp_all
  show ?thesis
  proof (cases "valid (py_str (fst (get_upstream w)))")
    case v: True
    show ?thesis
      by (rule override [of "''reverse:'' @ py_str (fst (get_upstream w))"])
        (simp_all add: rc v)
  next
    case v: False
    show ?thesis
      by (rule rejected [of "''reverse:'' @ py_str (fst (get_upstream w))"])
        (simp_all add: rc v)
  qed
qed

lemma step_next_addr: "next_addr w \<le> next_addr (step valid srv e w)"
proof (cases e)
  case (Accept conn a)
  show ?thesis
    by (rule resolve_config_cases [of valid srv w]) (simp_all add: Accept handle_eq)
qed simp_all

lemma step_frame:
  assumes "x < next_addr w"
  shows "options_at (step valid srv e w) x = options_at w x"
    and "config_options (step valid srv e w) x = config_options w x"
proof -
  have "options_at (step valid srv e w) x = options_at w x \<and>
        config_options (step valid srv e w) x = config_options w x"
  proof (cases e)
    case (Accept conn a)
    show ?thesis
      using assms
      by (rule_tac resolve_config_cases [of valid srv w]) (simp_all add: Accept handle_eq)
  qed simp_all
  then show "options_at (step valid srv e w) x = options_at w x"
    and "config_options (step valid srv e w) x = config_options w x" by simp_all
qed

lemma step_calls:
  obtains (none) "handled (step valid srv e w) = handled w"
  | (default) c where "handled (step valid srv e w) = handled w @ [c]"
      "call_config c = config srv"
  | (fresh) c where "handled (step valid srv e w) = handled w @ [c]"
      "next_addr w \<le> call_config c" "call_config c < next_addr (step valid srv e w)"
      "next_addr w \<le> config_options (step valid srv e w) (call_config c)"
      "config_options (step valid srv e w) (call_config c) < next_addr (step valid srv e w)"
      "\<forall>k. k \<noteq> ''mode'' \<longrightarrow>
         config_attrs (step valid srv e w) (call_config c) k = config_attrs w (config srv) k"
proof (cases e)
  case (Accept conn a)
  show ?thesis
  proof (rule resolve_config_cases [of valid srv w])
    assume "fst (resolve_config valid srv w) = Inr (config srv)"
    then show ?thesis
      by (intro default [of "(conn, a, config srv, channel srv)"])
        (simp_all add: Accept handle_eq call_config_def)
  next
    fix s
    assume "fst (resolve_config valid srv w) = Inr (Suc (next_addr w))"
      "options_at (snd (resolve_config valid srv w)) =
         (options_at w)(next_addr w :=
            (options_at w (config_options w (config srv)))(''mode'' \<mapsto> PyStr s))"
      "config_options (snd (resolve_config valid srv w)) =
         (config_options w)(Suc (next_addr w) := next_addr w)"
      "next_addr (snd (resolve_config valid srv w)) = Suc (Suc (next_addr w))"
    then show ?thesis
      by (intro fresh [of "(conn, a, Suc (next_addr w), channel srv)"])
        (simp_all add: Accept handle_eq call_config_def config_attrs_def)
  next
    fix s
    assume "fst (resolve_config valid srv w) = Inl ValueError"
    then have "handled (step valid srv e w) = handled w"
      by (simp add: Accept handle_eq resolve_config_handled)
    then show ?thesis by (rule none)
  qed
qed (simp_all add: none)

lemma run_inv_default_attrs:
  assumes "allocated srv w" and "run_inv srv w v"
  shows "config_attrs v (config srv) = config_attrs w (config srv)"
    and "config_options v (config srv) = config_options w (config srv)"
  using assms by (simp_all add: allocated_def run_inv_def config_attrs_def)

lemma run_inv_step:
  assumes al: "allocated srv w" and inv: "run_inv srv w v"
  shows "run_inv srv w (step valid srv e v)"
proof -
  let ?v' = "step valid srv e v"
  from inv obtain cs where
    mono: "next_addr w \<le> next_addr v"
    and frame: "\<And>x. x < next_addr w \<Longrightarrow>
            options_at v x = options_at w x \<and> config_options v x = config_options w x"
    and cs: "handled v = handled w @ cs"
    and old: "\<And>c. c \<in> set cs \<Longrightarrow>
           call_config c < next_addr v \<and> config_options v (call_config c) < next_addr v \<and>
           (\<forall>k. k \<noteq> ''mode'' \<longrightarrow> config_attrs v (call_config c) k = config_attrs w (config srv) k) \<and>
           (call_config c = config srv \<or>
            next_addr w \<le> call_config c \<and> next_addr w \<le> config_options v (call_config c))"
    unfolding run_inv_def by blast
  have mono': "next_addr v \<le> next_addr ?v'" by (rule step_next_addr)
  have frame': "options_at ?v' x = options_at w x \<and> config_options ?v' x = config_options w x"
    if "x < next_addr w" for x
    using that frame [OF that] mono by (simp add: step_frame)
  have keep: "call_config c < next_addr ?v' \<and> config_options ?v' (call_config c) < next_addr ?v' \<and>
           (\<forall>k. k \<noteq> ''mode'' \<longrightarrow> config_attrs ?v' (call_config c) k = config_attrs w (config srv) k) \<and>
           (call_config c = config srv \<or>
            next_addr w \<le> call_config c \<and> next_addr w \<le> config_options ?v' (call_config c))"
    if "c \<in> set cs" for c
  proof -
    from old [OF that] have b: "call_config c < next_addr v"
      "config_options v (call_config c) < next_addr v" by simp_all
    have "config_options ?v' (call_config c) = config_options v (call_config c)"
      using b by (simp add: step_frame)
    moreover have "config_attrs ?v' (call_config c) = config_attrs v (call_config c)"
      using b by (simp add: config_attrs_def step_frame)
    ultimately show ?thesis using old [OF that] mono' by simp
  qed
  have dflt: "config srv < next_addr ?v' \<and> config_options ?v' (config srv) < next_addr ?v' \<and>
           (\<forall>k. k \<noteq> ''mode'' \<longrightarrow> config_attrs ?v' (config srv) k = config_attrs w (config srv) k)"
    using al frame' mono mono' by (simp add: allocated_def config_attrs_def)
  have "\<exists>cs'. handled ?v' = handled w @ cs' \<and>
        (\<forall>c\<in>set cs'.
           call_config c < next_addr ?v' \<and> config_options ?v' (call_config c) < next_addr ?v' \<and>
           (\<forall>k. k \<noteq> ''mode'' \<longrightarrow> config_attrs ?v' (call_config c) k = config_attrs w (config srv) k) \<and>
           (call_config c = config srv \<or>
            next_addr w \<le> call_config c \<and> next_addr w \<le> config_options ?v' (call_config c)))"
  proof (rule step_calls [of valid srv e v])
    assume "handled ?v' = handled v"
    then have "handled ?v' = handled w @ cs" by (simp add: cs)
    with keep show ?thesis by blast
  next
    fix c assume c: "handled ?v' = handled v @ [c]" "call_config c = config srv"
    then have "handled ?v' = handled w @ (cs @ [c])" by (simp add: cs)
    moreover have "\<forall>c'\<in>set (cs @ [c]).
           call_config c' < next_addr ?v' \<and> config_options ?v' (call_config c') < next_addr ?v' \<and>
           (\<forall>k. k \<noteq> ''mode'' \<longrightarrow> config_attrs ?v' (call_config c') k = config_attrs w (config srv) k) \<and>
           (call_config c' = config srv \<or>
            next_addr w \<le> call_config c' \<and> next_addr w \<le> config_options ?v' (call_config c'))"
      using keep dflt c(2) by auto
    ultimately show ?thesis by blast
  next
    fix c assume c: "handled ?v' = handled v @ [c]"
      "next_addr v \<le> call_config c" "call_config c < next_addr ?v'"
      "next_addr v \<le> config_options ?v' (call_config c)"
      "config_options ?v' (call_config c) < next_addr ?v'"
      "\<forall>k. k \<noteq> ''mode'' \<longrightarrow>
         config_attrs ?v' (call_config c) k = config_attrs v (config srv) k"
    then have "handled ?v' = handled w @ (cs @ [c])" by (simp add: cs)
    moreover have "\<forall>c'\<in>set (cs @ [c]).
           call_config c' < next_addr ?v' \<and> config_options ?v' (call_config c') < next_addr ?v' \<and>
           (\<forall>k. k \<noteq> ''mode'' \<longrightarrow> config_attrs ?v' (call_config c') k = config_attrs w (config srv) k) \<and>
           (call_config c' = config srv \<or>
            next_addr w \<le> call_config c' \<and> next_addr w \<le> config_options ?v' (call_config c'))"
      using keep c(2-6) mono run_inv_default_attrs(1) [OF al inv] by auto
    ultimately show ?thesis by blast
  qed
  with mono mono' frame' show ?thesis
    unfolding run_inv_def by (meson le_trans)
qed

lemma run_inv_run:
  assumes "allocated srv w"
  shows "run_inv srv w (run valid srv evs w)"
proof (induction evs rule: rev_induct)
  case Nil
  show ?case by (simp add: run_def run_inv_def)
next
  case (snoc e evs)
  then show ?case
    using run_inv_step [OF assms, of "run valid srv evs w" valid e] by (simp add: run_def)
qed



subsection \<open>The parser on the endpoints of the concrete routes\<close>

lemmas parser_defs = server_spec_ok_def split_scheme_def valid_port_part_def valid_port_def
  port_value_def digit_value_def valid_host_def valid_label_def is_label_char_def
  is_word_def is_digit_def

lemma parser_accepts:
  "server_spec_ok ''https://httpbin.org''"
  "server_spec_ok ''https://example.com''"
  by (simp_all add: parser_defs)

lemma parser_rejects:
  "\<not> server_spec_ok ''localhost:99999''"
  "\<not> server_spec_ok ''not an endpoint''"
  by (simp_all add: parser_defs)

lemmas routes = route_a_def route_b_def route_null_def route_blank_def route_out_def
  route_bad_def route_port_def

subsection \<open>Claims about the router\<close>

text \<open>
  C1 (as amended). In reverse mode, when the INBOUND routes are not empty and the first
  of them has a non-null, non-empty \<^verbatim>\<open>destination_override_endpoint\<close>: if the engine's
  parser accepts the endpoint, the call returns, one handler is constructed, and the
  configuration it is given has \<^verbatim>\<open>options.mode\<close> equal to \<^verbatim>\<open>reverse:\<close> followed by that
  endpoint; if the parser rejects it, \<^verbatim>\<open>ProxyConfig\<close> raises \<^verbatim>\<open>ValueError\<close> and no handler is
  constructed.
\<close>

theorem override_mode_is_reverse_endpoint:
  assumes "proxy_mode w = REVERSE"
    and "inbound w = r # rs"
    and "destination_override_endpoint r = Some ep"
    and "ep \<noteq> []"
  shows "(valid ep \<longrightarrow>
            fst (handle_client_connection valid srv conn a w) = Returned \<and>
            handled (snd (handle_client_connection valid srv conn a w))
              = handled w @
                [(conn, a, handed_config (snd (handle_client_connection valid srv conn a w)),
                  channel srv)] \<and>
            config_attrs (snd (handle_client_connection valid srv conn a w))
              (handed_config (snd (handle_client_connection valid srv conn a w))) ''mode''
            = Some (PyStr (''reverse:'' @ ep))) \<and>
         (\<not> valid ep \<longrightarrow>
            fst (handle_client_connection valid srv conn a w) = Raised ValueError \<and>
            handled (snd (handle_client_connection valid srv conn a w)) = handled w)"
proof (intro conjI impI)
  assume v: "valid ep"
  note rc = resolve_config_override [where valid = valid and srv = srv, OF assms v]
  note h = handle_returned [OF rc, of conn a]
  have hc: "handed_config (snd (handle_client_connection valid srv conn a w)) = Suc (next_addr w)"
    by (rule handed_config_returned [OF rc])
  show "fst (handle_client_connection valid srv conn a w) = Returned"
    by (simp add: h)
  show "handled (snd (handle_client_connection valid srv conn a w))
      = handled w @
        [(conn, a, handed_config (snd (handle_client_connection valid srv conn a w)),
          channel srv)]"
    unfolding hc by (simp add: h)
  show "config_attrs (snd (handle_client_connection valid srv conn a w))
      (handed_config (snd (handle_client_connection valid srv conn a w))) ''mode''
    = Some (PyStr (''reverse:'' @ ep))"
    unfolding hc by (simp add: h config_attrs_def)
next
  assume v: "\<not> valid ep"
  note rc = resolve_config_rejected [where valid = valid and srv = srv, OF assms v]
  note h = handle_raised [OF rc, of conn a]
  show "fst (handle_client_connection valid srv conn a w) = Raised ValueError"
    by (simp add: h)
  show "handled (snd (handle_client_connection valid srv conn a w)) = handled w"
    by (simp add: h)
qed

theorem override_mode_is_reverse_endpoint_witness:
  "proxy_mode (world0 REVERSE [route_out, route_a, route_b]) = REVERSE \<and>
   inbound (world0 REVERSE [route_out, route_a, route_b]) = route_a # [route_b] \<and>
   destination_override_endpoint route_a = Some ''https://httpbin.org'' \<and>
   ''https://httpbin.org'' \<noteq> [] \<and>
   server_spec_ok ''https://httpbin.org'' \<and>
   fst (handle_client_connection server_spec_ok server0 5 ''10.0.0.1''
          (world0 REVERSE [route_out, route_a, route_b])) = Returned \<and>
   handled (snd (handle_client_connection server_spec_ok server0 5 ''10.0.0.1''
          (world0 REVERSE [route_out, route_a, route_b]))) = [(5, ''10.0.0.1'', 3, 7)] \<and>
   config_attrs
     (snd (handle_client_connection server_spec_ok server0 5 ''10.0.0.1''
          (world0 REVERSE [route_out, route_a, route_b]))) 3 ''mode''
   = Some (PyStr ''reverse:https://httpbin.org'') \<and>
   inbound (world0 REVERSE [route_port]) = route_port # [] \<and>
   destination_override_endpoint route_port = Some ''localhost:99999'' \<and>
   \<not> server_spec_ok ''localhost:99999'' \<and>
   fst (handle_client_connection server_spec_ok server0 6 ''10.0.0.2''
          (world0 REVERSE [route_port])) = Raised ValueError \<and>
   handled (snd (handle_client_connection server_spec_ok server0 6 ''10.0.0.2''
          (world0 REVERSE [route_port]))) = []"
proof -
  let ?w = "world0 REVERSE [route_out, route_a, route_b]"
  let ?v = "world0 REVERSE [route_port]"
  have w: "proxy_mode ?w = REVERSE" "inbound ?w = route_a # [route_b]"
    "destination_override_endpoint route_a = Some ''https://httpbin.org''"
    "''https://httpbin.org'' \<noteq> []" "handled ?w = []" "next_addr ?w = 2"
    "channel server0 = 7"
    by (simp_all add: world0_def inbound_def routes server0_def)
  have v: "proxy_mode ?v = REVERSE" "inbound ?v = route_port # []"
    "destination_override_endpoint route_port = Some ''localhost:99999''"
    "''localhost:99999'' \<noteq> []" "handled ?v = []"
    by (simp_all add: world0_def inbound_def routes)
  note t1 = override_mode_is_reverse_endpoint
    [OF w(1-4), of server_spec_ok server0 5 "''10.0.0.1''"]
  note t2 = override_mode_is_reverse_endpoint
    [OF v(1-4), of server_spec_ok server0 6 "''10.0.0.2''"]
  have hc: "handed_config (snd (handle_client_connection server_spec_ok server0 5 ''10.0.0.1'' ?w)) = 3"
    using handed_config_returned
      [OF resolve_config_override
          [where valid = server_spec_ok and srv = server0, OF w(1-4) parser_accepts(1)],
        of 5 "''10.0.0.1''"]
    by (simp add: w)
  from t1 parser_accepts(1) have a:
    "fst (handle_client_connection server_spec_ok server0 5 ''10.0.0.1'' ?w) = Returned"
    "handled (snd (handle_client_connection server_spec_ok server0 5 ''10.0.0.1'' ?w))
       = [(5, ''10.0.0.1'', 3, 7)]"
    "config_attrs (snd (handle_client_connection server_spec_ok server0 5 ''10.0.0.1'' ?w)) 3 ''mode''
       = Some (PyStr ''reverse:https://httpbin.org'')"
    by (simp_all add: hc w)
  from t2 parser_rejects(1) have b:
    "fst (handle_client_connection server_spec_ok server0 6 ''10.0.0.2'' ?v) = Raised ValueError"
    "handled (snd (handle_client_connection server_spec_ok server0 6 ''10.0.0.2'' ?v)) = []"
    by (simp_all add: v)
  from w v a b parser_accepts(1) parser_rejects(1) show ?thesis
    by simp
qed

text \<open>
  C1 as stated fails: the first INBOUND route has the non-null, non-empty endpoint
  \<^verbatim>\<open>localhost:99999\<close>, whose port is out of range; \<^verbatim>\<open>ProxyConfig\<close> raises, and no handler is
  given any configuration.
\<close>

theorem rejected_endpoint_counterexample:
  "proxy_mode (world0 REVERSE [route_port]) = REVERSE \<and>
   inbound (world0 REVERSE [route_port]) = [route_port] \<and>
   destination_override_endpoint route_port = Some ''localhost:99999'' \<and>
   fst (handle_client_connection server_spec_ok server0 6 ''10.0.0.2''
          (world0 REVERSE [route_port])) = Raised ValueError \<and>
   handled (snd (handle_client_connection server_spec_ok server0 6 ''10.0.0.2''
          (world0 REVERSE [route_port]))) = []"
proof -
  let ?v = "world0 REVERSE [route_port]"
  have v: "proxy_mode ?v = REVERSE" "inbound ?v = route_port # []"
    "destination_override_endpoint route_port = Some ''localhost:99999''"
    "''localhost:99999'' \<noteq> []" "handled ?v = []"
    by (simp_all add: world0_def inbound_def routes)
  note h = handle_raised
    [OF resolve_config_rejected
        [where valid = server_spec_ok and srv = server0, OF v(1-4) parser_rejects(1)],
      of 6 "''10.0.0.2''"]
  from v show ?thesis by (simp add: h)
qed

lemma handle_forward:
  assumes "proxy_mode w \<noteq> REVERSE"
  shows "handle_client_connection valid srv conn a w =
           (Returned, w\<lparr>handled := handled w @ [(conn, a, config srv, channel srv)]\<rparr>)"
  using assms by (simp add: handle_returned [OF resolve_config_forward])

lemma handle_no_override:
  assumes "proxy_mode w = REVERSE" and "\<not> truthy (fst (get_upstream w))"
  shows "handle_client_connection valid srv conn a w =
           (Returned,
            w\<lparr>repository_reads := Suc (repository_reads w),
              handled := handled w @ [(conn, a, config srv, channel srv)]\<rparr>)"
  using assms by (simp add: handle_returned [OF resolve_config_no_override])

lemma resolve_config_first_route_only:
  assumes "inbound w = r # rs" and "inbound (w\<lparr>routes_table := tbl\<rparr>) = r # rs'"
  shows "resolve_config valid srv (w\<lparr>routes_table := tbl\<rparr>) =
           (fst (resolve_config valid srv w),
            (snd (resolve_config valid srv w))\<lparr>routes_table := tbl\<rparr>)"
  using assms
  by (simp add: resolve_config_def get_upstream_inbound copy_options_def set_mode_def
      new_ProxyConfig_def Let_def split: option.split pyval.split sum.split)

text \<open>
  C4. The call returns with the handler given the default configuration object, and no
  object is touched, when the proxy is not in reverse mode (and then the route
  repository is not read), when there is no INBOUND route, and when the first INBOUND
  route has a null or empty \<^verbatim>\<open>destination_override_endpoint\<close>. Only the first INBOUND route is
  consulted: with the same first route, any other route table gives the same outcome.
\<close>

theorem default_config_when_no_override:
  "(proxy_mode w \<noteq> REVERSE \<longrightarrow>
      fst (handle_client_connection valid srv conn a w) = Returned \<and>
      handed_config (snd (handle_client_connection valid srv conn a w)) = config srv \<and>
      same_objects w (snd (handle_client_connection valid srv conn a w)) \<and>
      repository_reads (snd (handle_client_connection valid srv conn a w)) = repository_reads w) \<and>
   (proxy_mode w = REVERSE \<and> inbound w = [] \<longrightarrow>
      fst (handle_client_connection valid srv conn a w) = Returned \<and>
      handed_config (snd (handle_client_connection valid srv conn a w)) = config srv \<and>
      same_objects w (snd (handle_client_connection valid srv conn a w))) \<and>
   (proxy_mode w = REVERSE \<and> inbound w = r # rs \<and>
    (destination_override_endpoint r = None \<or> destination_override_endpoint r = Some []) \<longrightarrow>
      fst (handle_client_connection valid srv conn a w) = Returned \<and>
      handed_config (snd (handle_client_connection valid srv conn a w)) = config srv \<and>
      same_objects w (snd (handle_client_connection valid srv conn a w))) \<and>
   (inbound w = r # rs \<and> inbound (w\<lparr>routes_table := tbl\<rparr>) = r # rs' \<longrightarrow>
      handle_client_connection valid srv conn a (w\<lparr>routes_table := tbl\<rparr>) =
        (fst (handle_client_connection valid srv conn a w),
         (snd (handle_client_connection valid srv conn a w))\<lparr>routes_table := tbl\<rparr>))"
proof (intro conjI impI)
  assume fwd: "proxy_mode w \<noteq> REVERSE"
  note h = handle_forward [OF fwd, of valid srv conn a]
  show "fst (handle_client_connection valid srv conn a w) = Returned"
    by (simp add: h)
  show "handed_config (snd (handle_client_connection valid srv conn a w)) = config srv"
    by (simp add: h handed_config_def)
  show "same_objects w (snd (handle_client_connection valid srv conn a w))"
    by (simp add: h same_objects_def)
  show "repository_reads (snd (handle_client_connection valid srv conn a w)) = repository_reads w"
    by (simp add: h)
next
  assume "proxy_mode w = REVERSE \<and> inbound w = []"
  then have h: "handle_client_connection valid srv conn a w =
      (Returned,
       w\<lparr>repository_reads := Suc (repository_reads w),
         handled := handled w @ [(conn, a, config srv, channel srv)]\<rparr>)"
    by (intro handle_no_override) (simp_all add: get_upstream_inbound)
  show "fst (handle_client_connection valid srv conn a w) = Returned"
    by (simp add: h)
  show "handed_config (snd (handle_client_connection valid srv conn a w)) = config srv"
    by (simp add: h handed_config_def)
  show "same_objects w (snd (handle_client_connection valid srv conn a w))"
    by (simp add: h same_objects_def)
next
  assume "proxy_mode w = REVERSE \<and> inbound w = r # rs \<and>
    (destination_override_endpoint r = None \<or> destination_override_endpoint r = Some [])"
  then have h: "handle_client_connection valid srv conn a w =
      (Returned,
       w\<lparr>repository_reads := Suc (repository_reads w),
         handled := handled w @ [(conn, a, config srv, channel srv)]\<rparr>)"
    by (intro handle_no_override) (auto simp add: get_upstream_inbound)
  show "fst (handle_client_connection valid srv conn a w) = Returned"
    by (simp add: h)
  show "handed_config (snd (handle_client_connection valid srv conn a w)) = config srv"
    by (simp add: h handed_config_def)
  show "same_objects w (snd (handle_client_connection valid srv conn a w))"
    by (simp add: h same_objects_def)
next
  assume "inbound w = r # rs \<and> inbound (w\<lparr>routes_table := tbl\<rparr>) = r # rs'"
  then have rc: "resolve_config valid srv (w\<lparr>routes_table := tbl\<rparr>) =
      (fst (resolve_config valid srv w), (snd (resolve_config valid srv w))\<lparr>routes_table := tbl\<rparr>)"
    by (intro resolve_config_first_route_only) simp_all
  show "handle_client_connection valid srv conn a (w\<lparr>routes_table := tbl\<rparr>) =
      (fst (handle_client_connection valid srv conn a w),
       (snd (handle_client_connection valid srv conn a w))\<lparr>routes_table := tbl\<rparr>)"
    by (simp add: handle_eq rc split: sum.split)
qed

theorem default_config_when_no_override_witness:
  "proxy_mode (world0 FORWARD [route_a]) \<noteq> REVERSE \<and>
   fst (handle_client_connection server_spec_ok server0 5 ''10.0.0.1'' (world0 FORWARD [route_a]))
     = Returned \<and>
   handed_config
       (snd (handle_client_connection server_spec_ok server0 5 ''10.0.0.1'' (world0 FORWARD [route_a])))
     = config server0 \<and>
   same_objects (world0 FORWARD [route_a])
     (snd (handle_client_connection server_spec_ok server0 5 ''10.0.0.1'' (world0 FORWARD [route_a]))) \<and>
   repository_reads
       (snd (handle_client_connection server_spec_ok server0 5 ''10.0.0.1'' (world0 FORWARD [route_a])))
     = repository_reads (world0 FORWARD [route_a]) \<and>
   proxy_mode (world0 REVERSE [route_out]) = REVERSE \<and> inbound (world0 REVERSE [route_out]) = [] \<and>
   handed_config
       (snd (handle_client_connection server_spec_ok server0 5 ''10.0.0.1'' (world0 REVERSE [route_out])))
     = config server0 \<and>
   same_objects (world0 REVERSE [route_out])
     (snd (handle_client_connection server_spec_ok server0 5 ''10.0.0.1'' (world0 REVERSE [route_out]))) \<and>
   inbound (world0 REVERSE [route_null, route_a]) = route_null # [route_a] \<and>
   destination_override_endpoint route_null = None \<and>
   handed_config
       (snd (handle_client_connection server_spec_ok server0 5 ''10.0.0.1''
          (world0 REVERSE [route_null, route_a])))
     = config server0 \<and>
   inbound (world0 REVERSE [route_blank, route_a]) = route_blank # [route_a] \<and>
   destination_override_endpoint route_blank = Some [] \<and>
   handed_config
       (snd (handle_client_connection server_spec_ok server0 5 ''10.0.0.1''
          (world0 REVERSE [route_blank, route_a])))
     = config server0 \<and>
   inbound (world0 REVERSE [route_a]) = route_a # [] \<and>
   inbound ((world0 REVERSE [route_a])\<lparr>routes_table := [route_out, route_a, route_b]\<rparr>)
     = route_a # [route_b] \<and>
   handle_client_connection server_spec_ok server0 5 ''10.0.0.1''
       ((world0 REVERSE [route_a])\<lparr>routes_table := [route_out, route_a, route_b]\<rparr>)
     = (fst (handle_client_connection server_spec_ok server0 5 ''10.0.0.1'' (world0 REVERSE [route_a])),
        (snd (handle_client_connection server_spec_ok server0 5 ''10.0.0.1'' (world0 REVERSE [route_a])))
          \<lparr>routes_table := [route_out, route_a, route_b]\<rparr>)"
proof -
  have f: "proxy_mode (world0 FORWARD [route_a]) \<noteq> REVERSE"
    by (simp add: world0_def)
  have e: "proxy_mode (world0 REVERSE [route_out]) = REVERSE \<and> inbound (world0 REVERSE [route_out]) = []"
    by (simp add: world0_def inbound_def routes)
  have n: "proxy_mode (world0 REVERSE [route_null, route_a]) = REVERSE \<and>
      inbound (world0 REVERSE [route_null, route_a]) = route_null # [route_a] \<and>
      (destination_override_endpoint route_null = None \<or>
       destination_override_endpoint route_null = Some [])"
    "destination_override_endpoint route_null = None"
    by (simp_all add: world0_def inbound_def routes)
  have b: "proxy_mode (world0 REVERSE [route_blank, route_a]) = REVERSE \<and>
      inbound (world0 REVERSE [route_blank, route_a]) = route_blank # [route_a] \<and>
      (destination_override_endpoint route_blank = None \<or>
       destination_override_endpoint route_blank = Some [])"
    "destination_override_endpoint route_blank = Some []"
    by (simp_all add: world0_def inbound_def routes)
  have o: "inbound (world0 REVERSE [route_a]) = route_a # [] \<and>
      inbound ((world0 REVERSE [route_a])\<lparr>routes_table := [route_out, route_a, route_b]\<rparr>)
        = route_a # [route_b]"
    by (simp add: world0_def inbound_def routes)
  note t = default_config_when_no_override [where valid = server_spec_ok and srv = server0
      and conn = 5 and a = "''10.0.0.1''"]
  from t [where w = "world0 FORWARD [route_a]"] f
  have 1: "fst (handle_client_connection server_spec_ok server0 5 ''10.0.0.1'' (world0 FORWARD [route_a]))
     = Returned \<and>
   handed_config
       (snd (handle_client_connection server_spec_ok server0 5 ''10.0.0.1'' (world0 FORWARD [route_a])))
     = config server0 \<and>
   same_objects (world0 FORWARD [route_a])
     (snd (handle_client_connection server_spec_ok server0 5 ''10.0.0.1'' (world0 FORWARD [route_a]))) \<and>
   repository_reads
       (snd (handle_client_connection server_spec_ok server0 5 ''10.0.0.1'' (world0 FORWARD [route_a])))
     = repository_reads (world0 FORWARD [route_a])"
    by blast
  from t [where w = "world0 REVERSE [route_out]"] e
  have 2: "handed_config
       (snd (handle_client_connection server_spec_ok server0 5 ''10.0.0.1'' (world0 REVERSE [route_out])))
     = config server0 \<and>
   same_objects (world0 REVERSE [route_out])
     (snd (handle_client_connection server_spec_ok server0 5 ''10.0.0.1'' (world0 REVERSE [route_out])))"
    by blast
  from t [where w = "world0 REVERSE [route_null, route_a]" and r = route_null and rs = "[route_a]"]
    n(1)
  have 3: "handed_config
       (snd (handle_client_connection server_spec_ok server0 5 ''10.0.0.1''
          (world0 REVERSE [route_null, route_a])))
     = config server0"
    by blast
  from t [where w = "world0 REVERSE [route_blank, route_a]" and r = route_blank and rs = "[route_a]"]
    b(1)
  have 4: "handed_config
       (snd (handle_client_connection server_spec_ok server0 5 ''10.0.0.1''
          (world0 REVERSE [route_blank, route_a])))
     = config server0"
    by blast
  from t [where w = "world0 REVERSE [route_a]" and r = route_a and rs = "[]"
      and tbl = "[route_out, route_a, route_b]" and rs' = "[route_b]"] o
  have 5: "handle_client_connection server_spec_ok server0 5 ''10.0.0.1''
       ((world0 REVERSE [route_a])\<lparr>routes_table := [route_out, route_a, route_b]\<rparr>)
     = (fst (handle_client_connection server_spec_ok server0 5 ''10.0.0.1'' (world0 REVERSE [route_a])),
        (snd (handle_client_connection server_spec_ok server0 5 ''10.0.0.1'' (world0 REVERSE [route_a])))
          \<lparr>routes_table := [route_out, route_a, route_b]\<rparr>)"
    by blast
  from f e n b o 1 2 3 4 5 show ?thesis by blast
qed

text \<open>
  C5. When an override configuration is produced, it is built from a copy of the options
  of the default configuration in which only \<^verbatim>\<open>mode\<close> is rebound: the new configuration
  and its options are objects of their own, and its attributes are those of the default
  with \<^verbatim>\<open>mode\<close> replaced. However many connections are handled, under any changes of proxy
  mode and routes in between and whether or not some calls raise, the default
  configuration object and its options object stay as they were, and every
  configuration given to a handler agrees with the default on every attribute other
  than \<^verbatim>\<open>mode\<close>.
\<close>

theorem default_config_never_mutated:
  assumes "allocated srv w"
  shows
    "(proxy_mode w = REVERSE \<and> inbound w = r # rs \<and>
      destination_override_endpoint r = Some ep \<and> ep \<noteq> [] \<and> valid ep \<longrightarrow>
        config_attrs (snd (handle_client_connection valid srv conn a w))
            (handed_config (snd (handle_client_connection valid srv conn a w)))
          = (config_attrs w (config srv))(''mode'' \<mapsto> PyStr (''reverse:'' @ ep)) \<and>
        handed_config (snd (handle_client_connection valid srv conn a w)) \<noteq> config srv \<and>
        config_options (snd (handle_client_connection valid srv conn a w))
            (handed_config (snd (handle_client_connection valid srv conn a w)))
          \<noteq> config_options w (config srv)) \<and>
     config_options (run valid srv evs w) (config srv) = config_options w (config srv) \<and>
     options_at (run valid srv evs w) (config_options w (config srv))
       = options_at w (config_options w (config srv)) \<and>
     (\<forall>c\<in>set (new_calls w (run valid srv evs w)).
        (\<forall>k. k \<noteq> ''mode'' \<longrightarrow>
           config_attrs (run valid srv evs w) (call_config c) k = config_attrs w (config srv) k) \<and>
        (call_config c = config srv \<or>
         next_addr w \<le> call_config c \<and>
         next_addr w \<le> config_options (run valid srv evs w) (call_config c)))"
proof (intro conjI impI)
  assume ov: "proxy_mode w = REVERSE \<and> inbound w = r # rs \<and>
      destination_override_endpoint r = Some ep \<and> ep \<noteq> [] \<and> valid ep"
  then have rc: "resolve_config valid srv w =
           (Inr (Suc (next_addr w)),
            w\<lparr>repository_reads := Suc (repository_reads w),
              options_at := (options_at w)
                (next_addr w :=
                   (options_at w (config_options w (config srv)))
                     (''mode'' \<mapsto> PyStr (''reverse:'' @ ep))),
              config_options := (config_options w)(Suc (next_addr w) := next_addr w),
              next_addr := Suc (Suc (next_addr w))\<rparr>)"
    using resolve_config_override [where w = w and r = r and rs = rs and ep = ep
        and valid = valid and srv = srv]
    by simp
  note h = handle_returned [OF rc, of conn a]
  have hc: "handed_config (snd (handle_client_connection valid srv conn a w)) = Suc (next_addr w)"
    by (rule handed_config_returned [OF rc])
  show "config_attrs (snd (handle_client_connection valid srv conn a w))
            (handed_config (snd (handle_client_connection valid srv conn a w)))
          = (config_attrs w (config srv))(''mode'' \<mapsto> PyStr (''reverse:'' @ ep))"
    unfolding hc by (simp add: config_attrs_def h)
  show "handed_config (snd (handle_client_connection valid srv conn a w)) \<noteq> config srv"
    using assms by (simp add: hc allocated_def)
  show "config_options (snd (handle_client_connection valid srv conn a w))
            (handed_config (snd (handle_client_connection valid srv conn a w)))
          \<noteq> config_options w (config srv)"
    unfolding hc using assms by (simp add: h allocated_def)
next
  note inv = run_inv_run [OF assms, of valid evs]
  show "config_options (run valid srv evs w) (config srv) = config_options w (config srv)"
    by (rule run_inv_default_attrs(2) [OF assms inv])
  show "options_at (run valid srv evs w) (config_options w (config srv))
       = options_at w (config_options w (config srv))"
    using assms inv by (simp add: allocated_def run_inv_def)
  from inv obtain cs where cs: "handled (run valid srv evs w) = handled w @ cs"
    and good: "\<forall>c\<in>set cs.
        (\<forall>k. k \<noteq> ''mode'' \<longrightarrow>
           config_attrs (run valid srv evs w) (call_config c) k = config_attrs w (config srv) k) \<and>
        (call_config c = config srv \<or>
         next_addr w \<le> call_config c \<and>
         next_addr w \<le> config_options (run valid srv evs w) (call_config c))"
    unfolding run_inv_def by blast
  have "new_calls w (run valid srv evs w) = cs"
    by (simp add: new_calls_def cs)
  with good show "\<forall>c\<in>set (new_calls w (run valid srv evs w)).
        (\<forall>k. k \<noteq> ''mode'' \<longrightarrow>
           config_attrs (run valid srv evs w) (call_config c) k = config_attrs w (config srv) k) \<and>
        (call_config c = config srv \<or>
         next_addr w \<le> call_config c \<and>
         next_addr w \<le> config_options (run valid srv evs w) (call_config c))"
    by simp
qed

theorem default_config_never_mutated_witness:
  "allocated server0 (world0 REVERSE [route_a]) \<and>
   proxy_mode (world0 REVERSE [route_a]) = REVERSE \<and>
   inbound (world0 REVERSE [route_a]) = route_a # [] \<and>
   destination_override_endpoint route_a = Some ''https://httpbin.org'' \<and>
   ''https://httpbin.org'' \<noteq> [] \<and> server_spec_ok ''https://httpbin.org'' \<and>
   config_attrs
       (snd (handle_client_connection server_spec_ok server0 5 ''10.0.0.1'' (world0 REVERSE [route_a])))
       (handed_config
          (snd (handle_client_connection server_spec_ok server0 5 ''10.0.0.1'' (world0 REVERSE [route_a]))))
     = default_options(''mode'' \<mapsto> PyStr ''reverse:https://httpbin.org'') \<and>
   handed_config
       (snd (handle_client_connection server_spec_ok server0 5 ''10.0.0.1'' (world0 REVERSE [route_a])))
     \<noteq> config server0 \<and>
   new_calls (world0 REVERSE [route_a]) (run server_spec_ok server0 events0 (world0 REVERSE [route_a]))
     = [(1, ''10.0.0.1'', 3, 7), (2, ''10.0.0.2'', 5, 7), (3, ''10.0.0.3'', 1, 7)] \<and>
   options_at (run server_spec_ok server0 events0 (world0 REVERSE [route_a])) 0 = default_options \<and>
   config_attrs (run server_spec_ok server0 events0 (world0 REVERSE [route_a])) 3 ''listen_port''
     = Some (PyInt 9098) \<and>
   config_attrs (run server_spec_ok server0 events0 (world0 REVERSE [route_a])) 5 ''ssl_insecure''
     = Some (PyBool True) \<and>
   config_attrs (run server_spec_ok server0 events0 (world0 REVERSE [route_a])) 1 ''listen_host''
     = Some PyNone"
proof -
  let ?w = "world0 REVERSE [route_a]"
  let ?run = "run server_spec_ok server0 events0 ?w"
  have al: "allocated server0 ?w"
    by (simp add: allocated_def server0_def world0_def)
  have d: "config_attrs ?w (config server0) = default_options"
    by (simp add: config_attrs_def server0_def world0_def)
  have ms: "mode_server_spec (''reverse:'' @ ep) = Some ep" for ep
    by (rule mode_server_spec_reverse)
  have calls: "new_calls ?w ?run
     = [(1, ''10.0.0.1'', 3, 7), (2, ''10.0.0.2'', 5, 7), (3, ''10.0.0.3'', 1, 7)]"
    using ms [of "''https://httpbin.org''"] ms [of "''https://example.com''"]
      ms [of "''localhost:99999''"]
    by (simp add: new_calls_def run_def events0_def handle_client_connection_def
        resolve_config_def get_upstream_def get_all_by_type_def copy_options_def set_mode_def
        new_ProxyConfig_def Let_def world0_def server0_def routes parser_accepts parser_rejects)
  have ib: "inbound ?w = route_a # []"
    by (simp add: inbound_def world0_def routes)
  have ep: "destination_override_endpoint route_a = Some ''https://httpbin.org''"
    by (simp add: routes)
  have w0: "config_options ?w (config server0) = 0" "proxy_mode ?w = REVERSE"
    by (simp_all add: world0_def server0_def)
  note t = default_config_never_mutated
      [OF al, where r = route_a and rs = "[]" and ep = "''https://httpbin.org''"
        and valid = server_spec_ok and conn = 5 and a = "''10.0.0.1''" and evs = events0]
  from t ib ep w0 d parser_accepts(1) have one:
    "config_attrs (snd (handle_client_connection server_spec_ok server0 5 ''10.0.0.1'' ?w))
       (handed_config (snd (handle_client_connection server_spec_ok server0 5 ''10.0.0.1'' ?w)))
     = default_options(''mode'' \<mapsto> PyStr ''reverse:https://httpbin.org'')"
    "handed_config (snd (handle_client_connection server_spec_ok server0 5 ''10.0.0.1'' ?w))
       \<noteq> config server0"
    by simp_all
  from t w0 have dflt: "options_at ?run 0 = options_at ?w 0"
    by simp
  from t calls d have attrs:
    "\<And>k. k \<noteq> ''mode'' \<Longrightarrow> config_attrs ?run 3 k = default_options k"
    "\<And>k. k \<noteq> ''mode'' \<Longrightarrow> config_attrs ?run 5 k = default_options k"
    "\<And>k. k \<noteq> ''mode'' \<Longrightarrow> config_attrs ?run 1 k = default_options k"
    by (simp_all add: call_config_def)
  have a3: "config_attrs ?run 3 ''listen_port'' = Some (PyInt 9098)"
    using attrs(1) [of "''listen_port''"] by (simp add: default_options_def)
  have a5: "config_attrs ?run 5 ''ssl_insecure'' = Some (PyBool True)"
    using attrs(2) [of "''ssl_insecure''"] by (simp add: default_options_def)
  have a1: "config_attrs ?run 1 ''listen_host'' = Some PyNone"
    using attrs(3) [of "''listen_host''"] by (simp add: default_options_def)
  have "options_at ?w 0 = default_options"
    by (simp add: world0_def)
  with al ib ep w0 one calls dflt a3 a5 a1 parser_accepts(1) show ?thesis
    by simp
qed

text \<open>
  C9 (as amended). When the first INBOUND route's \<^verbatim>\<open>destination_override_endpoint\<close> is
  present, not empty and malformed, that is, rejected by the engine's parser of server
  specifications, the router does not fall back to the default configuration:
  \<^verbatim>\<open>ProxyConfig\<close> raises \<^verbatim>\<open>ValueError\<close> out of \<^verbatim>\<open>handle_client_connection\<close>, no handler is
  constructed for the connection, and the default configuration and its options are
  left as they were.
\<close>

theorem malformed_endpoint_fails_connection:
  assumes "allocated srv w"
    and "proxy_mode w = REVERSE"
    and "inbound w = r # rs"
    and "destination_override_endpoint r = Some ep"
    and "ep \<noteq> []"
    and "\<not> valid ep"
  shows "fst (handle_client_connection valid srv conn a w) = Raised ValueError \<and>
         handled (snd (handle_client_connection valid srv conn a w)) = handled w \<and>
         config_options (snd (handle_client_connection valid srv conn a w)) (config srv)
           = config_options w (config srv) \<and>
         options_at (snd (handle_client_connection valid srv conn a w))
             (config_options w (config srv))
           = options_at w (config_options w (config srv))"
proof -
  note rc = resolve_config_rejected [where valid = valid and srv = srv, OF assms(2-6)]
  note h = handle_raised [OF rc, of conn a]
  show ?thesis
    using assms(1) by (simp add: h allocated_def)
qed

theorem malformed_endpoint_fails_connection_witness:
  "allocated server0 (world0 REVERSE [route_bad, route_a]) \<and>
   proxy_mode (world0 REVERSE [route_bad, route_a]) = REVERSE \<and>
   inbound (world0 REVERSE [route_bad, route_a]) = route_bad # [route_a] \<and>
   destination_override_endpoint route_bad = Some ''not an endpoint'' \<and>
   ''not an endpoint'' \<noteq> [] \<and> \<not> server_spec_ok ''not an endpoint'' \<and>
   fst (handle_client_connection server_spec_ok server0 5 ''10.0.0.1''
          (world0 REVERSE [route_bad, route_a])) = Raised ValueError \<and>
   handled (snd (handle_client_connection server_spec_ok server0 5 ''10.0.0.1''
          (world0 REVERSE [route_bad, route_a]))) = [] \<and>
   options_at (snd (handle_client_connection server_spec_ok server0 5 ''10.0.0.1''
          (world0 REVERSE [route_bad, route_a]))) 0 = default_options"
proof -
  let ?w = "world0 REVERSE [route_bad, route_a]"
  have w: "allocated server0 ?w" "proxy_mode ?w = REVERSE" "inbound ?w = route_bad # [route_a]"
    "destination_override_endpoint route_bad = Some ''not an endpoint''"
    "''not an endpoint'' \<noteq> []"
    by (simp_all add: allocated_def world0_def server0_def inbound_def routes)
  have w0: "handled ?w = []" "config_options ?w (config server0) = 0"
    "options_at ?w 0 = default_options"
    by (simp_all add: world0_def server0_def)
  from malformed_endpoint_fails_connection
    [where valid = server_spec_ok and conn = 5 and a = "''10.0.0.1''",
      OF w parser_rejects(2)]
  show ?thesis
    using w parser_rejects(2) by (simp add: w0)
qed

text \<open>
  C9 as stated fails: with the malformed endpoint \<^verbatim>\<open>not an endpoint\<close> on the first INBOUND
  route the connection is not given the default configuration; the call raises and no
  handler is constructed.
\<close>

theorem malformed_endpoint_counterexample:
  "\<not> server_spec_ok ''not an endpoint'' \<and>
   proxy_mode (world0 REVERSE [route_bad]) = REVERSE \<and>
   inbound (world0 REVERSE [route_bad]) = [route_bad] \<and>
   destination_override_endpoint route_bad = Some ''not an endpoint'' \<and>
   fst (handle_client_connection server_spec_ok server0 9 ''10.0.0.9''
          (world0 REVERSE [route_bad])) = Raised ValueError \<and>
   handled (snd (handle_client_connection server_spec_ok server0 9 ''10.0.0.9''
          (world0 REVERSE [route_bad]))) = []"
proof -
  let ?v = "world0 REVERSE [route_bad]"
  have v: "proxy_mode ?v = REVERSE" "inbound ?v = route_bad # []"
    "destination_override_endpoint route_bad = Some ''not an endpoint''"
    "''not an endpoint'' \<noteq> []" "handled ?v = []"
    by (simp_all add: world0_def inbound_def routes)
  note h = handle_raised
    [OF resolve_config_rejected
        [where valid = server_spec_ok and srv = server0, OF v(1-4) parser_rejects(2)],
      of 9 "''10.0.0.9''"]
  from v parser_rejects(2) show ?thesis by (simp add: h)
qed

section \<open>Facts about the alias store\<close>

subsection \<open>Reading what was written\<close>


lemma find_unique:
  assumes "a \<in> set xs" and "P a" and "\<forall>x\<in>set xs. P x \<longrightarrow> x = a"
  shows "find P xs = Some a"
  using assms
proof (induction xs)
  case Nil
  then show ?case by simp
next
  case (Cons x xs)
  show ?case
  proof (cases "P x")
    case True
    with Cons.prems(3) have "x = a" by simp
    with True show ?thesis by simp
  next
    case False
    with Cons.prems(1,2) have "a \<in> set xs" by auto
    moreover from Cons.prems(3) have "\<forall>y\<in>set xs. P y \<longrightarrow> y = a" by simp
    ultimately have "find P xs = Some a" using Cons.IH Cons.prems(2) by blast
    with False show ?thesis by simp
  qed
qed

lemma find_none: "(\<forall>x\<in>set xs. \<not> P x) \<Longrightarrow> find P xs = None"
  by (simp add: find_None_iff)

lemma commit_alias_rows:
  assumes "commit_alias a tab = Inr tab'"
  shows "a \<in> set tab'"
    and "\<forall>r\<in>set tab'. alias_value r = alias_value a \<or> public_alias r = public_alias a \<longrightarrow> r = a"
proof -
  from assms have nodup: "\<forall>r\<in>set tab. alias_id r \<noteq> alias_id a \<longrightarrow>
      alias_value r \<noteq> alias_value a \<and> public_alias r \<noteq> public_alias a"
    by (auto simp add: commit_alias_def split: if_splits)
  show "a \<in> set tab'"
    using assms by (auto simp add: commit_alias_def split: if_splits)
  show "\<forall>r\<in>set tab'. alias_value r = alias_value a \<or> public_alias r = public_alias a \<longrightarrow> r = a"
    using assms nodup by (auto simp add: commit_alias_def split: if_splits)
qed


lemma save_rows:
  assumes "save store now a tab = (Inr a', tab')"
  shows "a' = a\<lparr>expires_at := (case ttl store of None \<Rightarrow> None | Some t \<Rightarrow> Some (now + t))\<rparr>"
    and "a' \<in> set tab'"
    and "\<forall>r\<in>set tab'. alias_value r = alias_value a \<or> public_alias r = public_alias a \<longrightarrow> r = a'"
proof -
  let ?a = "a\<lparr>expires_at := (case ttl store of None \<Rightarrow> None | Some t \<Rightarrow> Some (now + t))\<rparr>"
  from assms have c: "commit_alias ?a tab = Inr tab'" and a': "a' = ?a"
    by (auto simp add: save_def Let_def split: sum.splits)
  show "a' = ?a" by (rule a')
  show "a' \<in> set tab'" using commit_alias_rows(1) [OF c] a' by simp
  show "\<forall>r\<in>set tab'. alias_value r = alias_value a \<or> public_alias r = public_alias a \<longrightarrow> r = a'"
    using commit_alias_rows(2) [OF c] a' by simp
qed

lemma find_holds: "find P xs = Some x \<Longrightarrow> P x"
  by (induction xs) (simp_all split: if_splits)

lemma read_unique:
  assumes "a' \<in> set tab'"
    and "\<forall>r\<in>set tab'. alias_value r = alias_value a' \<or> public_alias r = public_alias a' \<longrightarrow> r = a'"
  shows "get_by_value h later (alias_value a') tab' = (if live h later a' then Some a' else None)"
    and "get_by_alias h later (public_alias a') tab' = (if live h later a' then Some a' else None)"
proof -
  show "get_by_value h later (alias_value a') tab' = (if live h later a' then Some a' else None)"
  proof (cases "live h later a'")
    case True
    have "find (\<lambda>r. alias_value r = alias_value a' \<and> live h later r) tab' = Some a'"
    proof (rule find_unique)
      show "a' \<in> set tab'" by (rule assms(1))
      show "alias_value a' = alias_value a' \<and> live h later a'" using True by simp
      show "\<forall>x\<in>set tab'. alias_value x = alias_value a' \<and> live h later x \<longrightarrow> x = a'"
        using assms(2) by blast
    qed
    with True show ?thesis by (simp add: get_by_value_def)
  next
    case False
    have "find (\<lambda>r. alias_value r = alias_value a' \<and> live h later r) tab' = None"
    proof (rule find_none)
      show "\<forall>x\<in>set tab'. \<not> (alias_value x = alias_value a' \<and> live h later x)"
        using assms(2) False by blast
    qed
    with False show ?thesis by (simp add: get_by_value_def)
  qed
  show "get_by_alias h later (public_alias a') tab' = (if live h later a' then Some a' else None)"
  proof (cases "live h later a'")
    case True
    have "find (\<lambda>r. public_alias r = public_alias a' \<and> live h later r) tab' = Some a'"
    proof (rule find_unique)
      show "a' \<in> set tab'" by (rule assms(1))
      show "public_alias a' = public_alias a' \<and> live h later a'" using True by simp
      show "\<forall>x\<in>set tab'. public_alias x = public_alias a' \<and> live h later x \<longrightarrow> x = a'"
        using assms(2) by blast
    qed
    with True show ?thesis by (simp add: get_by_alias_def)
  next
    case False
    have "find (\<lambda>r. public_alias r = public_alias a' \<and> live h later r) tab' = None"
    proof (rule find_none)
      show "\<forall>x\<in>set tab'. \<not> (public_alias x = public_alias a' \<and> live h later x)"
        using assms(2) False by blast
    qed
    with False show ?thesis by (simp add: get_by_alias_def)
  qed
qed

lemma read_saved:
  assumes "save store now a tab = (Inr a', tab')"
  shows "get_by_value h later (alias_value a) tab' = (if live h later a' then Some a' else None)"
    and "get_by_alias h later (public_alias a) tab' = (if live h later a' then Some a' else None)"
proof -
  note r = save_rows [OF assms]
  have v: "alias_value a' = alias_value a" and p: "public_alias a' = public_alias a"
    using r(1) by simp_all
  have u: "\<forall>r\<in>set tab'. alias_value r = alias_value a' \<or> public_alias r = public_alias a' \<longrightarrow> r = a'"
    using r(3) v p by simp
  show "get_by_value h later (alias_value a) tab' = (if live h later a' then Some a' else None)"
    using read_unique(1) [OF r(2) u, of h later] v by simp
  show "get_by_alias h later (public_alias a) tab' = (if live h later a' then Some a' else None)"
    using read_unique(2) [OF r(2) u, of h later] p by simp
qed

lemma saved_expiry:
  assumes "save (AliasStore t) now a tab = (Inr a', tab')"
  shows "expires_at a' = (case t of None \<Rightarrow> None | Some d \<Rightarrow> Some (now + d))"
  using save_rows(1) [OF assms] by simp

subsection \<open>What a save does to the table\<close>






subsection \<open>The tests pass on the model\<close>

lemma public_differs: "v \<noteq> ''public_'' @ v"
  using self_append_conv2 [of v "''public_''"] by simp

lemma commit_new:
  assumes "\<forall>r\<in>set tab. alias_id r \<noteq> alias_id a \<and> alias_value r \<noteq> alias_value a \<and>
             public_alias r \<noteq> public_alias a"
  shows "commit_alias a tab = Inr (tab @ [a])"
proof -
  have 1: "\<not> (\<exists>r\<in>set tab. alias_id r \<noteq> alias_id a \<and>
           (alias_value r = alias_value a \<or> public_alias r = public_alias a))"
    using assms by blast
  have 2: "\<not> (\<exists>r\<in>set tab. alias_id r = alias_id a)"
    using assms by blast
  show ?thesis
    unfolding commit_alias_def by (simp only: 1 2 if_False)
qed

lemma commit_again:
  assumes "\<forall>r\<in>set tab. alias_id r \<noteq> alias_id a \<and> alias_value r \<noteq> alias_value a \<and>
             public_alias r \<noteq> public_alias a"
    and "alias_id b = alias_id a"
  shows "commit_alias a (tab @ [b]) = Inr (tab @ [a])"
proof -
  have 1: "\<not> (\<exists>r\<in>set (tab @ [b]). alias_id r \<noteq> alias_id a \<and>
           (alias_value r = alias_value a \<or> public_alias r = public_alias a))"
    using assms by auto
  have 2: "\<exists>r\<in>set (tab @ [b]). alias_id r = alias_id a"
    using assms(2) by simp
  have "map (\<lambda>r. if alias_id r = alias_id a then a else r) tab = tab"
    using assms(1) by (intro map_idI) simp
  then have 3: "map (\<lambda>r. if alias_id r = alias_id a then a else r) (tab @ [b]) = tab @ [a]"
    using assms(2) by simp
  show ?thesis
    unfolding commit_alias_def by (simp only: 1 2 3 if_False if_True)
qed

lemma make_alias_fresh:
  assumes "fresh_for i v tab"
  shows "make_alias b i v now tab = Inr (made i v now, tab @ [made i v now])"
proof -
  have "commit_alias (made i v now) tab = Inr (tab @ [made i v now])"
    using assms by (intro commit_new) (simp add: fresh_for_def made_def)
  then show ?thesis
    by (simp add: make_alias_def made_def Let_def)
qed

lemma save_made:
  assumes "fresh_for i v tab"
  shows "save (AliasStore t) now (made i v now) (tab @ [made i v now]) =
           (Inr ((made i v now)\<lparr>expires_at := (case t of None \<Rightarrow> None | Some d \<Rightarrow> Some (now + d))\<rparr>),
            tab @ [(made i v now)\<lparr>expires_at := (case t of None \<Rightarrow> None | Some d \<Rightarrow> Some (now + d))\<rparr>])"
proof -
  let ?a = "(made i v now)\<lparr>expires_at := (case t of None \<Rightarrow> None | Some d \<Rightarrow> Some (now + d))\<rparr>"
  have "commit_alias ?a (tab @ [made i v now]) = Inr (tab @ [?a])"
    using assms by (intro commit_again) (simp_all add: fresh_for_def made_def)
  then show ?thesis
    by (simp add: save_def Let_def)
qed


lemma fresh_unique:
  assumes "fresh_for i v tab" and "alias_value a = v" and "public_alias a = ''public_'' @ v"
  shows "a \<in> set (tab @ [a])"
    and "\<forall>r\<in>set (tab @ [a]).
           alias_value r = alias_value a \<or> public_alias r = public_alias a \<longrightarrow> r = a"
    and "\<forall>r\<in>set (tab @ [a]). alias_value r \<noteq> public_alias a"
    and "\<forall>r\<in>set (tab @ [a]). public_alias r \<noteq> alias_value a"
proof -
  show "a \<in> set (tab @ [a])" by simp
  show "\<forall>r\<in>set (tab @ [a]).
           alias_value r = alias_value a \<or> public_alias r = public_alias a \<longrightarrow> r = a"
    using assms by (simp add: fresh_for_def)
  show "\<forall>r\<in>set (tab @ [a]). alias_value r \<noteq> public_alias a"
    using assms public_differs [of v] by (simp add: fresh_for_def)
  show "\<forall>r\<in>set (tab @ [a]). public_alias r \<noteq> alias_value a"
    using assms public_differs [of v] by (simp add: fresh_for_def)
qed

lemma read_fresh:
  assumes "fresh_for i v tab" and "alias_value a = v" and "public_alias a = ''public_'' @ v"
  shows "get_by_value h later v (tab @ [a]) = (if live h later a then Some a else None)"
    and "get_by_alias h later (''public_'' @ v) (tab @ [a]) = (if live h later a then Some a else None)"
    and "get_by_value h later (''public_'' @ v) (tab @ [a]) = None"
    and "get_by_alias h later v (tab @ [a]) = None"
proof -
  note u = fresh_unique [OF assms]
  show "get_by_value h later v (tab @ [a]) = (if live h later a then Some a else None)"
    using read_unique(1) [OF u(1,2), of h later] assms(2) by simp
  show "get_by_alias h later (''public_'' @ v) (tab @ [a]) = (if live h later a then Some a else None)"
    using read_unique(2) [OF u(1,2), of h later] assms(3) by simp
  have "find (\<lambda>r. alias_value r = ''public_'' @ v \<and> live h later r) (tab @ [a]) = None"
    using u(3) assms(3) by (intro find_none) simp
  then show "get_by_value h later (''public_'' @ v) (tab @ [a]) = None"
    by (simp only: get_by_value_def)
  have "find (\<lambda>r. public_alias r = v \<and> live h later r) (tab @ [a]) = None"
    using u(4) assms(2) by (intro find_none) simp
  then show "get_by_alias h later v (tab @ [a]) = None"
    by (simp only: get_by_alias_def)
qed

lemma tests_of_reads_pass:
  assumes "fresh_for i v tab"
  shows "test_get_by_value i v now later tab"
    and "test_get_by_alias i v now later tab"
proof -
  have m: "alias_value (made i v now) = v" "public_alias (made i v now) = ''public_'' @ v"
    "live (AliasStore None) later (made i v now)"
    by (simp_all add: made_def live_def)
  note r = read_fresh [OF assms m(1,2), of "AliasStore None" later]
  show "test_get_by_value i v now later tab"
    using m r by (simp add: test_get_by_value_def make_alias_fresh [OF assms])
  show "test_get_by_alias i v now later tab"
    using m r by (simp add: test_get_by_alias_def make_alias_fresh [OF assms])
qed

lemma test_save_passes:
  assumes "fresh_for i v tab"
  shows "test_save i v now later tab"
proof -
  have "find (\<lambda>r. alias_id r = i) (tab @ [made i v now]) = Some (made i v now)"
    using assms by (intro find_unique) (simp_all add: fresh_for_def made_def)
  then show ?thesis
    using save_made [OF assms, of None now]
    by (simp add: test_save_def make_alias_fresh [OF assms] made_def)
qed

lemma tests_with_ttl_pass:
  assumes "fresh_for i v tab" and "now \<le> later" and "later < now + 60"
  shows "test_get_by_value_with_ttl i v now later tab"
    and "test_get_by_alias_with_ttl i v now later tab"
    and "test_get_by_value_with_ttl_expired i v now later tab"
    and "test_get_by_alias_with_ttl_expired i v now later tab"
proof -
  let ?a = "\<lambda>d. (made i v now)\<lparr>expires_at := Some (now + d)\<rparr>"
  have m: "alias_value (?a d) = v" "public_alias (?a d) = ''public_'' @ v" for d
    by (simp_all add: made_def)
  have m0: "alias_value (made i v now) = v" "public_alias (made i v now) = ''public_'' @ v"
    by (simp_all add: made_def)
  have l: "live (AliasStore (Some 60)) later (?a 60)" "\<not> live (AliasStore None) later (?a 60)"
    "\<not> live (AliasStore (Some (- 1))) later (?a (- 1))"
    using assms(2,3) by (simp_all add: live_def)
  note r60 = read_fresh [OF assms(1) m, of _ later 60]
  note r1 = read_fresh [OF assms(1) m, of _ later "- 1"]
  show "test_get_by_value_with_ttl i v now later tab"
    using l r60(1) [of "AliasStore (Some 60)"] r60(1) [of "AliasStore None"]
    using m0 by (simp add: test_get_by_value_with_ttl_def make_alias_fresh [OF assms(1)]
        save_made [OF assms(1)])
  show "test_get_by_alias_with_ttl i v now later tab"
    using l r60(2) [of "AliasStore (Some 60)"] r60(2) [of "AliasStore None"]
    using m0 by (simp add: test_get_by_alias_with_ttl_def make_alias_fresh [OF assms(1)]
        save_made [OF assms(1)])
  show "test_get_by_value_with_ttl_expired i v now later tab"
    using l r1(1) [of "AliasStore (Some (- 1))"]
    using m0 by (simp add: test_get_by_value_with_ttl_expired_def make_alias_fresh [OF assms(1)]
        save_made [OF assms(1)])
  show "test_get_by_alias_with_ttl_expired i v now later tab"
    using l r1(2) [of "AliasStore (Some (- 1))"]
    using m0 by (simp add: test_get_by_alias_with_ttl_expired_def make_alias_fresh [OF assms(1)]
        save_made [OF assms(1)])
qed

lemma made_and_saved_fresh:
  assumes "fresh_for i v tab"
  shows "made_and_saved t i v now tab =
           Inr (tab @ [(made i v now)\<lparr>expires_at := (case t of None \<Rightarrow> None | Some d \<Rightarrow> Some (now + d))\<rparr>])"
  by (simp add: made_and_saved_def make_alias_fresh [OF assms] save_made [OF assms])

lemma test_cleanup_passes:
  assumes "fresh_for i2 v2 [made i1 v1 now]"
    and "fresh_for i3 v3 [made i1 v1 now, made i2 v2 now]"
    and "now \<le> later" and "later < now + 60"
  shows "test_cleanup i1 v1 i2 v2 i3 v3 now later"
proof -
  let ?r1 = "(made i1 v1 now)\<lparr>expires_at := None\<rparr>"
  let ?r2 = "(made i2 v2 now)\<lparr>expires_at := Some (now + 60)\<rparr>"
  let ?r3 = "(made i3 v3 now)\<lparr>expires_at := Some (now + (- 1))\<rparr>"
  have f1: "fresh_for i1 v1 []"
    by (simp add: fresh_for_def)
  have f2: "fresh_for i2 v2 ([] @ [?r1])"
    using assms(1) by (simp add: fresh_for_def made_def)
  have f3: "fresh_for i3 v3 (([] @ [?r1]) @ [?r2])"
    using assms(2) by (simp add: fresh_for_def made_def)
  have s1: "made_and_saved None i1 v1 now [] = Inr ([] @ [?r1])"
    using made_and_saved_fresh [OF f1, of None now] by simp
  have s2: "made_and_saved (Some 60) i2 v2 now ([] @ [?r1]) = Inr (([] @ [?r1]) @ [?r2])"
    using made_and_saved_fresh [OF f2, of "Some 60" now] by simp
  have s3: "made_and_saved (Some (- 1)) i3 v3 now (([] @ [?r1]) @ [?r2])
      = Inr ((([] @ [?r1]) @ [?r2]) @ [?r3])"
    using made_and_saved_fresh [OF f3, of "Some (- 1)" now] by simp
  have c: "fst (cleanup later ((([] @ [?r1]) @ [?r2]) @ [?r3])) = 1"
    using assms(3,4) by (simp add: cleanup_def expired_def)
  show ?thesis
    unfolding test_cleanup_def by (simp only: s1 s2 s3 c sum.case)
qed


subsection \<open>The spec's wording against the tests\<close>

text \<open>
  With the read of section 4.1 as worded, a handle without a TTL returns the row that
  \<^verbatim>\<open>test_get_by_value_with_ttl\<close> asserts it does not return; with the save of section 4.1
  as worded, the \<open>save\<close> that follows \<^verbatim>\<open>make_alias\<close> in the tests raises.
\<close>

lemma spec_read_contradicts_ttl_tests:
  assumes "save (AliasStore (Some 60)) now a tab = (Inr a', tab')" and "later < now + 60"
  shows "get_by_value_spec (AliasStore None) later (alias_value a) tab' = Some a'"
proof -
  note r = save_rows [OF assms(1)]
  have e: "expires_at a' = Some (now + 60)" and v: "alias_value a' = alias_value a"
    using r(1) by simp_all
  have "find (\<lambda>r. alias_value r = alias_value a \<and> live_spec later r) tab' = Some a'"
  proof (rule find_unique)
    show "a' \<in> set tab'" by (rule r(2))
    show "alias_value a' = alias_value a \<and> live_spec later a'"
      using assms(2) by (simp add: v live_spec_def e)
    show "\<forall>x\<in>set tab'. alias_value x = alias_value a \<and> live_spec later x \<longrightarrow> x = a'"
      using r(3) by blast
  qed
  then show ?thesis by (simp only: get_by_value_spec_def)
qed

lemma spec_save_contradicts_tests:
  assumes "make_alias b i v now tab = Inr (a, tab1)"
  shows "save_spec store now a tab1 = (Inl DuplicateKeyError, tab1)"
proof -
  from assms have "commit_alias a tab = Inr tab1"
    by (simp add: make_alias_def Let_def split: sum.splits)
  then have "a \<in> set tab1" by (rule commit_alias_rows(1))
  then have "\<exists>r\<in>set tab1. alias_value r = alias_value a \<or> public_alias r = public_alias a"
    by blast
  then show ?thesis
    by (simp add: save_spec_def Let_def)
qed


subsection \<open>Claims about the alias store\<close>

lemmas rows = alias_card_def alias_token_def alias_old_def alias_fresh_def alias_made_def
  alias_dup_def made_def

text \<open>
  C2 (as amended). An alias saved at time \<open>now\<close> through a handle with a positive TTL
  \<open>t\<close> is returned by \<open>get_by_value\<close> and \<open>get_by_alias\<close> through any handle that has a
  TTL, whatever its value, at every time before \<open>now + t\<close>; from \<open>now + t\<close> on every
  handle returns none; and a handle without a TTL returns none for it at all times.
\<close>

theorem volatile_record_lifetime:
  assumes "save (AliasStore (Some t)) now a tab = (Inr a', tab')" and "0 < t"
  shows "(later < now + t \<longrightarrow>
            get_by_value (AliasStore (Some t')) later (alias_value a) tab' = Some a' \<and>
            get_by_alias (AliasStore (Some t')) later (public_alias a) tab' = Some a') \<and>
         (now + t \<le> later \<longrightarrow>
            get_by_value h later (alias_value a) tab' = None \<and>
            get_by_alias h later (public_alias a) tab' = None) \<and>
         get_by_value (AliasStore None) later (alias_value a) tab' = None \<and>
         get_by_alias (AliasStore None) later (public_alias a) tab' = None"
proof -
  have e: "expires_at a' = Some (now + t)"
    using saved_expiry [OF assms(1)] by simp
  have vol: "live (AliasStore (Some t')) later a' \<longleftrightarrow> later < now + t"
    by (simp add: live_def e)
  have per: "\<not> live (AliasStore None) later a'"
    by (simp add: live_def e)
  have gone: "\<not> live h later a'" if "now + t \<le> later"
    using that by (cases h) (simp add: live_def e split: option.split)
  show ?thesis
    by (simp add: read_saved [OF assms(1)] vol per gone)
qed

lemma save_card_60:
  "save (AliasStore (Some 60)) 1000 alias_card [alias_old] =
     (Inr (alias_card\<lparr>expires_at := Some 1060\<rparr>),
      [alias_old, alias_card\<lparr>expires_at := Some 1060\<rparr>])"
  by (simp add: save_def commit_alias_def Let_def rows)

theorem volatile_record_lifetime_witness:
  "save (AliasStore (Some 60)) 1000 alias_card [alias_old] =
     (Inr (alias_card\<lparr>expires_at := Some 1060\<rparr>),
      [alias_old, alias_card\<lparr>expires_at := Some 1060\<rparr>]) \<and>
   (0::int) < 60 \<and> (1030::int) < 1000 + 60 \<and>
   get_by_value (AliasStore (Some 5)) 1030 (alias_value alias_card)
       [alias_old, alias_card\<lparr>expires_at := Some 1060\<rparr>]
     = Some (alias_card\<lparr>expires_at := Some 1060\<rparr>) \<and>
   get_by_alias (AliasStore (Some 5)) 1030 (public_alias alias_card)
       [alias_old, alias_card\<lparr>expires_at := Some 1060\<rparr>]
     = Some (alias_card\<lparr>expires_at := Some 1060\<rparr>) \<and>
   (1000::int) + 60 \<le> 1060 \<and>
   get_by_value (AliasStore (Some 60)) 1060 (alias_value alias_card)
       [alias_old, alias_card\<lparr>expires_at := Some 1060\<rparr>] = None \<and>
   get_by_alias (AliasStore (Some 60)) 1060 (public_alias alias_card)
       [alias_old, alias_card\<lparr>expires_at := Some 1060\<rparr>] = None \<and>
   get_by_value (AliasStore None) 1030 (alias_value alias_card)
       [alias_old, alias_card\<lparr>expires_at := Some 1060\<rparr>] = None"
  using volatile_record_lifetime [OF save_card_60, of 1030 5 "AliasStore (Some 60)"]
    volatile_record_lifetime [OF save_card_60, of 1060 5 "AliasStore (Some 60)"]
    save_card_60
  by simp

text \<open>
  C2 as stated fails: a row saved with a TTL of 60 into an empty table is not returned
  by a handle without a TTL at the very time of the save, 60 seconds before it expires.
  This is what \<^verbatim>\<open>test_get_by_value_with_ttl\<close> and \<^verbatim>\<open>test_get_by_alias_with_ttl\<close> assert,
  and both pass.
\<close>

theorem persistent_handle_counterexample:
  "save (AliasStore (Some 60)) 1000 alias_card [] =
     (Inr (alias_card\<lparr>expires_at := Some 1060\<rparr>), [alias_card\<lparr>expires_at := Some 1060\<rparr>]) \<and>
   (1000::int) < 1000 + 60 \<and>
   get_by_value (AliasStore None) 1000 (alias_value alias_card)
       [alias_card\<lparr>expires_at := Some 1060\<rparr>] = None \<and>
   get_by_alias (AliasStore None) 1000 (public_alias alias_card)
       [alias_card\<lparr>expires_at := Some 1060\<rparr>] = None \<and>
   test_get_by_value_with_ttl ''1'' ''4111-1111-1111-1111'' 1000 1000 [] \<and>
   test_get_by_alias_with_ttl ''1'' ''4111-1111-1111-1111'' 1000 1000 []"
  by (simp add: save_def commit_alias_def get_by_value_def get_by_alias_def live_def Let_def
      test_get_by_value_with_ttl_def test_get_by_alias_with_ttl_def make_alias_def rows)

text \<open>
  C3. One \<open>cleanup\<close> keeps, in order, exactly the rows whose expiry is null or still
  ahead, so it deletes exactly the rows whose expiry is set and has passed; it returns
  the number of rows it deleted; every row without an expiry is still there; and a
  second \<open>cleanup\<close> at the same time deletes nothing and returns 0.
\<close>

theorem cleanup_removes_expired:
  "snd (cleanup now tab) = filter (\<lambda>r. \<not> (\<exists>e. expires_at r = Some e \<and> e \<le> now)) tab \<and>
   fst (cleanup now tab) = length (filter (\<lambda>r. \<exists>e. expires_at r = Some e \<and> e \<le> now) tab) \<and>
   fst (cleanup now tab) + length (snd (cleanup now tab)) = length tab \<and>
   (\<forall>r\<in>set tab. expires_at r = None \<longrightarrow> r \<in> set (snd (cleanup now tab))) \<and>
   cleanup now (snd (cleanup now tab)) = (0, snd (cleanup now tab))"
proof -
  have ex: "expired now = (\<lambda>r. \<exists>e. expires_at r = Some e \<and> e \<le> now)"
    by (rule ext) (simp add: expired_def split: option.split)
  have kept: "snd (cleanup now tab) = filter (\<lambda>r. \<not> (\<exists>e. expires_at r = Some e \<and> e \<le> now)) tab"
    by (simp add: cleanup_def ex)
  have cnt: "fst (cleanup now tab) = length (filter (\<lambda>r. \<exists>e. expires_at r = Some e \<and> e \<le> now) tab)"
    by (simp add: cleanup_def ex)
  have total: "fst (cleanup now tab) + length (snd (cleanup now tab)) = length tab"
    unfolding cleanup_def fst_conv snd_conv by (rule sum_length_filter_compl)
  have pers: "\<forall>r\<in>set tab. expires_at r = None \<longrightarrow> r \<in> set (snd (cleanup now tab))"
    by (simp add: kept)
  have again: "cleanup now (snd (cleanup now tab)) = (0, snd (cleanup now tab))"
    by (simp add: cleanup_def)
  from kept cnt total pers again show ?thesis by blast
qed

theorem cleanup_removes_expired_witness:
  "cleanup 1000 [alias_card, alias_old, alias_fresh] = (1, [alias_card, alias_fresh]) \<and>
   expires_at alias_card = None \<and>
   alias_card \<in> set (snd (cleanup 1000 [alias_card, alias_old, alias_fresh])) \<and>
   cleanup 1000 (snd (cleanup 1000 [alias_card, alias_old, alias_fresh]))
     = (0, [alias_card, alias_fresh])"
proof -
  have c: "cleanup 1000 [alias_card, alias_old, alias_fresh] = (1, [alias_card, alias_fresh])"
    by (simp add: cleanup_def expired_def rows)
  have e: "expires_at alias_card = None"
    by (simp add: alias_card_def)
  note t = cleanup_removes_expired [of 1000 "[alias_card, alias_old, alias_fresh]"]
  from t have p: "\<forall>r\<in>set [alias_card, alias_old, alias_fresh].
      expires_at r = None \<longrightarrow> r \<in> set (snd (cleanup 1000 [alias_card, alias_old, alias_fresh]))"
    by (elim conjE)
  from t have again: "cleanup 1000 (snd (cleanup 1000 [alias_card, alias_old, alias_fresh]))
       = (0, snd (cleanup 1000 [alias_card, alias_old, alias_fresh]))"
    by (elim conjE)
  from p e have "alias_card \<in> set (snd (cleanup 1000 [alias_card, alias_old, alias_fresh]))"
    by simp
  with c e again show ?thesis by simp
qed

text \<open>
  C6. An alias saved through a handle with a TTL that is zero or negative is returned by
  neither \<open>get_by_value\<close> nor \<open>get_by_alias\<close>, through any handle, at the time of the save
  or later.
\<close>

theorem nonpositive_ttl_born_expired:
  assumes "save (AliasStore (Some t)) now a tab = (Inr a', tab')"
    and "t \<le> 0" and "now \<le> later"
  shows "get_by_value h later (alias_value a) tab' = None \<and>
         get_by_alias h later (public_alias a) tab' = None"
proof -
  have e: "expires_at a' = Some (now + t)"
    using saved_expiry [OF assms(1)] by simp
  have "\<not> live h later a'"
    using assms(2,3) by (cases h) (simp add: live_def e split: option.split)
  then show ?thesis
    by (simp add: read_saved [OF assms(1)])
qed

lemma save_card_expired:
  "save (AliasStore (Some (- 1))) 1000 alias_card [alias_fresh] =
     (Inr (alias_card\<lparr>expires_at := Some 999\<rparr>),
      [alias_fresh, alias_card\<lparr>expires_at := Some 999\<rparr>])"
  by (simp add: save_def commit_alias_def Let_def rows)

theorem nonpositive_ttl_born_expired_witness:
  "save (AliasStore (Some (- 1))) 1000 alias_card [alias_fresh] =
     (Inr (alias_card\<lparr>expires_at := Some 999\<rparr>),
      [alias_fresh, alias_card\<lparr>expires_at := Some 999\<rparr>]) \<and>
   (- 1::int) \<le> 0 \<and> (1000::int) \<le> 1000 \<and>
   get_by_value (AliasStore (Some (- 1))) 1000 (alias_value alias_card)
       [alias_fresh, alias_card\<lparr>expires_at := Some 999\<rparr>] = None \<and>
   get_by_alias (AliasStore (Some (- 1))) 1000 (public_alias alias_card)
       [alias_fresh, alias_card\<lparr>expires_at := Some 999\<rparr>] = None"
  using nonpositive_ttl_born_expired [OF save_card_expired, of 1000 "AliasStore (Some (- 1))"]
    save_card_expired
  by simp




text \<open>
  C8 (as amended). \<open>get_by_value\<close> returns only rows whose value is the key and
  \<open>get_by_alias\<close> only rows whose public alias is the key. For an alias saved through a
  handle without a TTL, such a handle returns it by its value and by its public alias;
  \<open>get_by_value\<close> of its public alias is none when no stored row has that string as its
  value, and \<open>get_by_alias\<close> of its value is none when no stored row has that string as its
  public alias.
\<close>

theorem lookups_match_own_column:
  assumes "save (AliasStore None) now a tab = (Inr a', tab')"
  shows "get_by_value (AliasStore None) later (alias_value a) tab' = Some a' \<and>
         get_by_alias (AliasStore None) later (public_alias a) tab' = Some a' \<and>
         ((\<forall>r\<in>set tab'. alias_value r \<noteq> public_alias a) \<longrightarrow>
            get_by_value h later (public_alias a) tab' = None) \<and>
         ((\<forall>r\<in>set tab'. public_alias r \<noteq> alias_value a) \<longrightarrow>
            get_by_alias h later (alias_value a) tab' = None) \<and>
         (get_by_value h later v tab' = Some r \<longrightarrow> alias_value r = v) \<and>
         (get_by_alias h later p tab' = Some r \<longrightarrow> public_alias r = p)"
proof -
  have e: "expires_at a' = None"
    using saved_expiry [OF assms] by simp
  have l: "live (AliasStore None) later a'"
    by (simp add: live_def e)
  have own: "get_by_value (AliasStore None) later (alias_value a) tab' = Some a'"
    "get_by_alias (AliasStore None) later (public_alias a) tab' = Some a'"
    by (simp_all add: read_saved [OF assms] l)
  have cv: "get_by_value h later (public_alias a) tab' = None"
    if "\<forall>r\<in>set tab'. alias_value r \<noteq> public_alias a"
    unfolding get_by_value_def using that by (intro find_none) blast
  have ca: "get_by_alias h later (alias_value a) tab' = None"
    if "\<forall>r\<in>set tab'. public_alias r \<noteq> alias_value a"
    unfolding get_by_alias_def using that by (intro find_none) blast
  have sv: "alias_value r = v" if "get_by_value h later v tab' = Some r"
    using find_holds [OF that [unfolded get_by_value_def]] by simp
  have sa: "public_alias r = p" if "get_by_alias h later p tab' = Some r"
    using find_holds [OF that [unfolded get_by_alias_def]] by simp
  from own cv ca sv sa show ?thesis by blast
qed

lemma save_card_persistent:
  "save (AliasStore None) 1000 alias_card [alias_old] = (Inr alias_card, [alias_old, alias_card])"
  by (simp add: save_def commit_alias_def Let_def rows)

theorem lookups_match_own_column_witness:
  "save (AliasStore None) 1000 alias_card [alias_old] = (Inr alias_card, [alias_old, alias_card]) \<and>
   get_by_value (AliasStore None) 2000 (alias_value alias_card) [alias_old, alias_card]
     = Some alias_card \<and>
   get_by_alias (AliasStore None) 2000 (public_alias alias_card) [alias_old, alias_card]
     = Some alias_card \<and>
   alias_value alias_old \<noteq> public_alias alias_card \<and>
   alias_value alias_card \<noteq> public_alias alias_card \<and>
   get_by_value (AliasStore None) 2000 (public_alias alias_card) [alias_old, alias_card] = None \<and>
   public_alias alias_old \<noteq> alias_value alias_card \<and>
   public_alias alias_card \<noteq> alias_value alias_card \<and>
   get_by_alias (AliasStore None) 2000 (alias_value alias_card) [alias_old, alias_card] = None \<and>
   alias_value alias_card = ''4111-1111-1111-1111''"
  using lookups_match_own_column
    [OF save_card_persistent, of 2000 "AliasStore None" "''4111-1111-1111-1111''" alias_card
        "''tok_card''"]
    save_card_persistent
  by (simp add: rows)

text \<open>
  C8 as stated fails: when the table holds a row whose value is the public alias of the
  saved alias (a token that was itself tokenised), \<open>get_by_value\<close> of that public alias
  returns that row, not none.
\<close>

theorem cross_lookup_counterexample:
  "save (AliasStore None) 1000 alias_card [alias_token]
     = (Inr alias_card, [alias_token, alias_card]) \<and>
   get_by_value (AliasStore None) 1000 (alias_value alias_card) [alias_token, alias_card]
     = Some alias_card \<and>
   get_by_value (AliasStore None) 1000 (public_alias alias_card) [alias_token, alias_card]
     = Some alias_token"
  by (simp add: save_def commit_alias_def get_by_value_def live_def Let_def rows)

end
